theory Spec2Isabelle
  imports Complex_Main "HOL-Library.Multiset" "HOL-Library.Log_Nat"
begin

section \<open>Data model\<close>

text \<open>
  The Mongoose schemas of \<^verbatim>\<open>src/models\<close>. An ObjectId is modelled by its string form,
  a \<^verbatim>\<open>Date\<close> by \<^verbatim>\<open>getTime()\<close> (milliseconds since the epoch, an integer), an
  integral \<^verbatim>\<open>Number\<close> by \<open>int\<close>, and the trust score, which moves in steps of one half,
  by \<open>rat\<close>. Quotients and products that are not integral are double-precision numbers,
  rationals rounded as the section on double-precision arithmetic says. Fields that no
  operation below reads (nickname, title, timestamps, ...) are left out.
\<close>

type_synonym objectId = string
type_synonym date = int

record UserChallenge =
  userId :: objectId
  challengeId :: objectId
  completedDates :: "date list"
  completionPhotos :: "(date \<times> string) list"
  startDate :: date
  rank :: int
  score :: int
  totalCompletions :: int
  currentStreakCount :: int
  maxStreakCount :: int
  lastCompletionDate :: "date option"

datatype grade = bronze | silver | gold | diamond

record User =
  user_id :: objectId
  grade :: grade
  trustScore :: rat
  representativeBadges :: "(objectId \<times> int) list"
  earnedBadges :: "objectId list"

datatype conditionType =
  Completions | Streak | Score | Challenges | Days | Category_completions

record Condition =
  ctype :: conditionType
  cvalue :: int
  categoryTarget :: "string option"

record Badge =
  badge_id :: objectId
  condition :: Condition

record Challenge =
  challenge_id :: objectId
  category :: string
  completionRate :: int

text \<open>The four collections of the single datastore.\<close>

record Store =
  userChallenges :: "UserChallenge list"
  users :: "User list"
  challenges :: "Challenge list"
  badgeCatalog :: "Badge list"

datatype error =
  PhotoRequired | NotFound | AlreadyCompletedToday | InvalidId | ServerError

section \<open>Store access\<close>

text \<open>
  \<^verbatim>\<open>findOne\<close> returns the first matching document; \<^verbatim>\<open>save\<close> writes a loaded
  document back in its place. A progress record is identified by its (userId, challengeId)
  pair, on which the schema declares a unique index. \<^verbatim>\<open>save\<close> validates the document
  against its schema first. Stored documents are taken to be valid, so a save can only be
  rejected for a field that the operation has just changed: the completion rate of a
  challenge and the representative badges of a user, whose validators are modelled with the
  operations that write them.
\<close>

fun replaceFirst :: "('a \<Rightarrow> bool) \<Rightarrow> 'a \<Rightarrow> 'a list \<Rightarrow> 'a list" where
  "replaceFirst P y [] = []"
| "replaceFirst P y (x # xs) = (if P x then y # xs else x # replaceFirst P y xs)"

definition findUserChallenge :: "objectId \<Rightarrow> objectId \<Rightarrow> Store \<Rightarrow> UserChallenge option" where
  "findUserChallenge uid cid st =
     find (\<lambda>uc. userId uc = uid \<and> challengeId uc = cid) (userChallenges st)"

definition saveUserChallenge :: "UserChallenge \<Rightarrow> Store \<Rightarrow> Store" where
  "saveUserChallenge uc st =
     st\<lparr>userChallenges :=
          replaceFirst (\<lambda>x. userId x = userId uc \<and> challengeId x = challengeId uc) uc
            (userChallenges st)\<rparr>"

definition findUserById :: "objectId \<Rightarrow> Store \<Rightarrow> User option" where
  "findUserById uid st = find (\<lambda>u. user_id u = uid) (users st)"

definition saveUser :: "User \<Rightarrow> Store \<Rightarrow> Store" where
  "saveUser u st = st\<lparr>users := replaceFirst (\<lambda>x. user_id x = user_id u) u (users st)\<rparr>"

definition findChallengeById :: "objectId \<Rightarrow> Store \<Rightarrow> Challenge option" where
  "findChallengeById cid st = find (\<lambda>c. challenge_id c = cid) (challenges st)"

definition saveChallenge :: "Challenge \<Rightarrow> Store \<Rightarrow> Store" where
  "saveChallenge c st =
     st\<lparr>challenges := replaceFirst (\<lambda>x. challenge_id x = challenge_id c) c (challenges st)\<rparr>"

section \<open>Calendar days\<close>

definition msPerDay :: int where
  "msPerDay = 1000 * 60 * 60 * 24"

text \<open>\<^verbatim>\<open>d.setUTCHours(0, 0, 0, 0)\<close>: the start of the UTC day that contains \<open>t\<close>.\<close>

definition setUTCHours0 :: "date \<Rightarrow> date" where
  "setUTCHours0 t = t - t mod msPerDay"

text \<open>\<^verbatim>\<open>d.setUTCDate(d.getUTCDate() - 1)\<close>: the same time of day, one UTC day earlier.\<close>

definition previousUTCDate :: "date \<Rightarrow> date" where
  "previousUTCDate t = t - msPerDay"

section \<open>Completion recorder: the progress record\<close>

text \<open>\<^verbatim>\<open>completedDates.some(date => new Date(date).getTime() === day.getTime())\<close>\<close>

definition completedOn :: "date \<Rightarrow> UserChallenge \<Rightarrow> bool" where
  "completedOn day uc = list_ex (\<lambda>d. d = day) (completedDates uc)"

text \<open>Lines 328 to 354 of \<^verbatim>\<open>completeChallenge\<close>: the mutation of the loaded record.\<close>

definition applyCompletion :: "date \<Rightarrow> string \<Rightarrow> UserChallenge \<Rightarrow> UserChallenge" where
  "applyCompletion today photoUrl uc =
     (let uc1 = uc\<lparr>completedDates := completedDates uc @ [today],
                   completionPhotos := completionPhotos uc @ [(today, photoUrl)],
                   totalCompletions := totalCompletions uc + 1,
                   score := score uc + 10,
                   lastCompletionDate := Some today\<rparr>;
          yesterday = previousUTCDate today;
          completedYesterday = completedOn yesterday uc1;
          uc2 = (if completedYesterday
                 then uc1\<lparr>currentStreakCount := currentStreakCount uc1 + 1\<rparr>
                 else uc1\<lparr>currentStreakCount := 1\<rparr>)
      in if currentStreakCount uc2 > maxStreakCount uc2
         then uc2\<lparr>maxStreakCount := currentStreakCount uc2\<rparr>
         else uc2)"

text \<open>
  Lines 298 to 354: compute today, reject a second completion of the same UTC day, otherwise
  mutate. \<open>now\<close> is the value of \<^verbatim>\<open>new Date()\<close>.
\<close>

definition completeRecord :: "date \<Rightarrow> string \<Rightarrow> UserChallenge \<Rightarrow> error + UserChallenge" where
  "completeRecord now photoUrl uc =
     (let today = setUTCHours0 now
      in if completedOn today uc then Inl AlreadyCompletedToday
         else Inr (applyCompletion today photoUrl uc))"

text \<open>
  The record \<^verbatim>\<open>joinChallenge\<close> creates: \<^verbatim>\<open>new UserChallenge({userId, challengeId,
  startDate: new Date()})\<close> with the schema's defaults.
\<close>

definition newUserChallenge :: "objectId \<Rightarrow> objectId \<Rightarrow> date \<Rightarrow> UserChallenge" where
  "newUserChallenge uid cid now =
     \<lparr>userId = uid, challengeId = cid, completedDates = [], completionPhotos = [],
      startDate = now, rank = 0, score = 0, totalCompletions = 0,
      currentStreakCount = 0, maxStreakCount = 0, lastCompletionDate = None\<rparr>"

text \<open>
  A sequence of completion requests on one record, at the given instants and with the given
  photos, each of which has to succeed.
\<close>

fun completeAll :: "(date \<times> string) list \<Rightarrow> UserChallenge \<Rightarrow> error + UserChallenge" where
  "completeAll [] uc = Inr uc"
| "completeAll ((now, photoUrl) # rest) uc =
     (case completeRecord now photoUrl uc of
        Inl e \<Rightarrow> Inl e
      | Inr uc' \<Rightarrow> completeAll rest uc')"

section \<open>Trust score and grade\<close>

text \<open>Lines 366 to 375: the base point and the streak bonus.\<close>

definition trustScoreIncreaseFor :: "int \<Rightarrow> rat" where
  "trustScoreIncreaseFor streak =
     (if streak \<ge> 10 then 1 + 2
      else if streak \<ge> 7 then 1 + 3 / 2
      else if streak \<ge> 3 then 1 + 1
      else 1)"

text \<open>Lines 393 to 404.\<close>

definition gradeForBadgeCount :: "nat \<Rightarrow> grade" where
  "gradeForBadgeCount badgeCount =
     (if badgeCount \<ge> 40 then diamond
      else if badgeCount \<ge> 20 then gold
      else if badgeCount \<ge> 10 then silver
      else bronze)"

text \<open>
  Lines 390 to 412: reload the user, classify, and save only when the grade changes. The
  second component tells whether \<^verbatim>\<open>save\<close> was called.
\<close>

definition updateGrade :: "objectId \<Rightarrow> Store \<Rightarrow> Store \<times> bool" where
  "updateGrade uid st =
     (case findUserById uid st of
        None \<Rightarrow> (st, False)
      | Some updatedUser \<Rightarrow>
          (let badgeCount = length (earnedBadges updatedUser);
               newGrade = gradeForBadgeCount badgeCount
           in if grade updatedUser \<noteq> newGrade
              then (saveUser (updatedUser\<lparr>grade := newGrade\<rparr>) st, True)
              else (st, False)))"

text \<open>
  Lines 363 to 383: the trust score of the completing user. The second component is the
  local variable \<^verbatim>\<open>trustScoreIncrease\<close>, which stays 0 when the user is not found.
\<close>

definition applyTrustScore :: "objectId \<Rightarrow> UserChallenge \<Rightarrow> Store \<Rightarrow> Store \<times> rat" where
  "applyTrustScore uid userChallenge st =
     (case findUserById uid st of
        None \<Rightarrow> (st, 0)
      | Some user \<Rightarrow>
          (let trustScoreIncrease = trustScoreIncreaseFor (currentStreakCount userChallenge)
           in (saveUser (user\<lparr>trustScore := min 100 (trustScore user + trustScoreIncrease)\<rparr>) st,
               trustScoreIncrease)))"

section \<open>Double-precision arithmetic\<close>

text \<open>
  A JavaScript \<^verbatim>\<open>Number\<close> is an IEEE 754 double. Counts, scores and dates are integers
  far below \<open>2 ^ 53\<close> and are doubles as they stand; a quotient or product is the double
  nearest to the exact result, of two equally near ones the one with the even significand.
  The values are kept as rationals. The range of the exponent is not modelled: every
  quotient below lies between \<open>2 ^ - 53\<close> and \<open>2 ^ 53\<close>.
\<close>

text \<open>The nearest integer, of two equally near ones the even one.\<close>

definition roundHalfEven :: "rat \<Rightarrow> int" where
  "roundHalfEven y =
     (let f = \<lfloor>y\<rfloor>; d = y - of_int f
      in if d < 1 / 2 then f else if 1 / 2 < d then f + 1 else if even f then f else f + 1)"

text \<open>The exponent \<open>e\<close> of a positive number: \<open>2 ^ e \<le> x < 2 ^ (e + 1)\<close>.\<close>

definition binaryExponent :: "rat \<Rightarrow> int" where
  "binaryExponent x = (if 1 \<le> x then bitlen \<lfloor>x\<rfloor> - 1 else - bitlen (\<lceil>1 / x\<rceil> - 1))"

text \<open>
  The nearest double: the number is scaled to a significand between \<open>2 ^ 52\<close> and
  \<open>2 ^ 53\<close>, which is rounded to an integer.
\<close>

definition toDouble :: "rat \<Rightarrow> rat" where
  "toDouble x =
     (if x = 0 then 0
      else (let a = \<bar>x\<bar>; e = binaryExponent a - 52; m = roundHalfEven (a / 2 powi e)
            in (if x < 0 then - 1 else 1) * of_int m * 2 powi e))"

text \<open>The operators \<^verbatim>\<open>/\<close> and \<^verbatim>\<open>*\<close> on doubles, and \<^verbatim>\<open>Math.round\<close>, which rounds halves upwards.\<close>

definition jsDiv :: "rat \<Rightarrow> rat \<Rightarrow> rat" where
  "jsDiv a b = toDouble (a / b)"

definition jsMul :: "rat \<Rightarrow> rat \<Rightarrow> rat" where
  "jsMul a b = toDouble (a * b)"

definition mathRound :: "rat \<Rightarrow> int" where
  "mathRound x = \<lfloor>x + 1 / 2\<rfloor>"

section \<open>Completion-rate aggregator\<close>

text \<open>
  \<^verbatim>\<open>updateCompletionRate\<close>. \<open>now\<close> is the value of \<^verbatim>\<open>new Date()\<close> inside the loop. The
  rate is \<^verbatim>\<open>Math.round((totalActualCompletions / totalPossibleCompletions) * 100)\<close>, in
  double precision.
\<close>

definition daysSinceStart :: "date \<Rightarrow> UserChallenge \<Rightarrow> int" where
  "daysSinceStart now uc = (now - startDate uc) div msPerDay"

definition possibleDays :: "date \<Rightarrow> UserChallenge \<Rightarrow> int" where
  "possibleDays now uc = max 1 (min (daysSinceStart now uc + 1) 30)"

definition totalPossibleCompletions :: "date \<Rightarrow> UserChallenge list \<Rightarrow> int" where
  "totalPossibleCompletions now ucs = sum_list (map (possibleDays now) ucs)"

definition totalActualCompletions :: "UserChallenge list \<Rightarrow> int" where
  "totalActualCompletions ucs = sum_list (map totalCompletions ucs)"

definition computedRate :: "date \<Rightarrow> UserChallenge list \<Rightarrow> int" where
  "computedRate now ucs =
     (if length ucs = 0 then 0
      else if totalPossibleCompletions now ucs > 0
      then mathRound (jsMul (jsDiv (of_int (totalActualCompletions ucs))
                               (of_int (totalPossibleCompletions now ucs))) 100)
      else 0)"

text \<open>
  The schema of \<^verbatim>\<open>Challenge\<close> declares \<^verbatim>\<open>completionRate\<close> with \<^verbatim>\<open>min: 0, max: 100\<close>;
  \<^verbatim>\<open>save\<close> validates the document and rejects it otherwise.
\<close>

definition challengeSchemaValid :: "Challenge \<Rightarrow> bool" where
  "challengeSchemaValid c = (0 \<le> completionRate c \<and> completionRate c \<le> 100)"

text \<open>
  A rejected \<^verbatim>\<open>save\<close> throws; the \<^verbatim>\<open>catch\<close> of \<^verbatim>\<open>updateCompletionRate\<close> logs the error and
  the stored challenge stays as it was.
\<close>

definition updateCompletionRate :: "date \<Rightarrow> objectId \<Rightarrow> Store \<Rightarrow> Store" where
  "updateCompletionRate now cid st =
     (case findChallengeById cid st of
        None \<Rightarrow> st
      | Some challenge \<Rightarrow>
          (let ucs = filter (\<lambda>uc. challengeId uc = cid) (userChallenges st);
               challenge' = challenge\<lparr>completionRate := computedRate now ucs\<rparr>
           in if challengeSchemaValid challenge' then saveChallenge challenge' st else st))"

section \<open>Badge evaluation engine\<close>

record UserStats =
  statTotalCompletions :: int
  maxStreak :: int
  totalScore :: int
  totalChallenges :: int
  categoryCompletions :: "string \<rightharpoonup> int"
  totalActiveDays :: int

text \<open>
  One step of the \<^verbatim>\<open>forEach\<close> that fills \<^verbatim>\<open>categoryCompletions\<close>. \<^verbatim>\<open>populate\<close> replaces
  the challenge id by the challenge, or by null when there is none; an empty category counts
  as \<^verbatim>\<open>'other'\<close>.
\<close>

definition categoryStep :: "Store \<Rightarrow> UserChallenge \<Rightarrow> (string \<rightharpoonup> int) \<Rightarrow> (string \<rightharpoonup> int)" where
  "categoryStep st uc m =
     (case findChallengeById (challengeId uc) st of
        None \<Rightarrow> m
      | Some ch \<Rightarrow>
          (let cat = (if category ch = [] then ''other'' else category ch)
           in m(cat \<mapsto> (case m cat of None \<Rightarrow> 0 | Some n \<Rightarrow> n) + totalCompletions uc)))"

definition userStats :: "Store \<Rightarrow> UserChallenge list \<Rightarrow> UserStats" where
  "userStats st ucs =
     \<lparr>statTotalCompletions = foldl (\<lambda>sum uc. sum + totalCompletions uc) 0 ucs,
      maxStreak = foldr max (map maxStreakCount ucs) 0,
      totalScore = foldl (\<lambda>sum uc. sum + score uc) 0 ucs,
      totalChallenges = int (length ucs),
      categoryCompletions = fold (categoryStep st) ucs Map.empty,
      totalActiveDays = foldl (\<lambda>sum uc. sum + int (length (completedDates uc))) 0 ucs\<rparr>"

text \<open>The \<^verbatim>\<open>switch\<close> on the condition type; a missing or empty target is falsy.\<close>

definition conditionMet :: "UserStats \<Rightarrow> Badge \<Rightarrow> bool" where
  "conditionMet s badge =
     (let c = condition badge in
      case ctype c of
        Completions \<Rightarrow> statTotalCompletions s \<ge> cvalue c
      | Streak \<Rightarrow> maxStreak s \<ge> cvalue c
      | Score \<Rightarrow> totalScore s \<ge> cvalue c
      | Challenges \<Rightarrow> totalChallenges s \<ge> cvalue c
      | Days \<Rightarrow> totalActiveDays s \<ge> cvalue c
      | Category_completions \<Rightarrow>
          (case categoryTarget c of
             None \<Rightarrow> False
           | Some target \<Rightarrow>
               if target = [] then False
               else (case categoryCompletions s target of None \<Rightarrow> 0 | Some n \<Rightarrow> n)
                      \<ge> cvalue c))"

text \<open>
  The aggregate that the specification matches with each kind of condition, in the
  specification's words: completions with totalCompletions, streak with maxStreak, score
  with totalScore, challenges with totalChallenges, days with totalActiveDays, and
  category_completions with the entry of the badge's target category in the category map,
  0 when there is none.
\<close>

definition matchingAggregate :: "UserStats \<Rightarrow> Badge \<Rightarrow> int" where
  "matchingAggregate s badge =
     (case ctype (condition badge) of
        Completions \<Rightarrow> statTotalCompletions s
      | Streak \<Rightarrow> maxStreak s
      | Score \<Rightarrow> totalScore s
      | Challenges \<Rightarrow> totalChallenges s
      | Days \<Rightarrow> totalActiveDays s
      | Category_completions \<Rightarrow>
          (case categoryTarget (condition badge) of
             None \<Rightarrow> 0
           | Some target \<Rightarrow>
               (case categoryCompletions s target of None \<Rightarrow> 0 | Some n \<Rightarrow> n)))"


text \<open>Lines 1242 to 1254: grant one badge to the loaded user document.\<close>

definition awardBadge :: "objectId \<Rightarrow> User \<Rightarrow> User" where
  "awardBadge badgeId user =
     (let u1 = user\<lparr>earnedBadges := earnedBadges user @ [badgeId]\<rparr>
      in if length (representativeBadges u1) < 4
         then (let nextOrder = int (length (representativeBadges u1)) + 1
               in u1\<lparr>representativeBadges := representativeBadges u1 @ [(badgeId, nextOrder)]\<rparr>)
         else u1)"

text \<open>
  The \<^verbatim>\<open>for\<close> loop over the catalog. Mongoose arrays compare ObjectIds by value in
  \<^verbatim>\<open>includes\<close>.
\<close>

fun awardLoop :: "UserStats \<Rightarrow> Badge list \<Rightarrow> User \<Rightarrow> User" where
  "awardLoop s [] user = user"
| "awardLoop s (badge # rest) user =
     (if badge_id badge \<in> set (earnedBadges user) then awardLoop s rest user
      else if conditionMet s badge then awardLoop s rest (awardBadge (badge_id badge) user)
      else awardLoop s rest user)"

text \<open>
  The validators of the \<^verbatim>\<open>User\<close> schema on \<^verbatim>\<open>representativeBadges\<close>: every order lies
  between 1 and 4, there are at most four entries, and the orders are pairwise different.
\<close>

definition userSchemaValid :: "User \<Rightarrow> bool" where
  "userSchemaValid u =
     (list_all (\<lambda>(b, order). 1 \<le> order \<and> order \<le> 4) (representativeBadges u)
      \<and> length (representativeBadges u) \<le> 4
      \<and> distinct (map snd (representativeBadges u)))"

text \<open>
  The argument the function receives as \<^verbatim>\<open>req\<close>: the route passes an authenticated
  request (whose \<^verbatim>\<open>user\<close> may be undefined), \<^verbatim>\<open>completeChallenge\<close> passes a string.
  \<^verbatim>\<open>req.user!.id\<close> reads the user id of a request that carries one; on anything else
  it throws a TypeError, here \<open>None\<close>.
\<close>

datatype handlerArg = RequestArg "objectId option" | StringArg string

fun reqUserId :: "handlerArg \<Rightarrow> objectId option" where
  "reqUserId (RequestArg u) = u"
| "reqUserId (StringArg s) = None"

text \<open>
  \<^verbatim>\<open>checkAndAwardBadges\<close>. Every exception, the TypeError of the first line and a
  rejected \<^verbatim>\<open>save\<close> alike, ends in the \<^verbatim>\<open>catch\<close>, which logs it: nothing is stored.
\<close>

definition checkAndAwardBadges :: "handlerArg \<Rightarrow> Store \<Rightarrow> Store" where
  "checkAndAwardBadges req st =
     (case reqUserId req of
        None \<Rightarrow> st
      | Some uid \<Rightarrow>
          (let ucs = filter (\<lambda>uc. userId uc = uid) (userChallenges st)
           in case findUserById uid st of
                None \<Rightarrow> st
              | Some user \<Rightarrow>
                  (let user' = awardLoop (userStats st ucs) (badgeCatalog st) user
                   in if userSchemaValid user' then saveUser user' st else st)))"

section \<open>Completion recorder: the whole operation\<close>

record CompletionResponse =
  resp_score :: int
  resp_totalCompletions :: int
  resp_currentStreakCount :: int
  resp_maxStreakCount :: int
  resp_completedDate :: date
  resp_photoUrl :: string
  resp_trustScore :: rat
  resp_trustScoreIncrease :: rat
  resp_currentGrade :: grade
  resp_totalBadges :: nat

text \<open>
  \<^verbatim>\<open>completeChallenge\<close>. \<open>now\<close> is the clock read for today, \<open>rateNow\<close> the later one of
  the aggregator; \<open>file\<close> is the name of the uploaded photo, if any. The result is the store
  after the request and the response: an error or the data of the success response.
\<close>

definition completeChallenge ::
  "date \<Rightarrow> date \<Rightarrow> objectId \<Rightarrow> objectId \<Rightarrow> string option \<Rightarrow> Store
     \<Rightarrow> Store \<times> (error + CompletionResponse)" where
  "completeChallenge now rateNow uid cid file st =
     (case file of
        None \<Rightarrow> (st, Inl PhotoRequired)
      | Some filename \<Rightarrow>
          (case findUserChallenge uid cid st of
             None \<Rightarrow> (st, Inl NotFound)
           | Some userChallenge \<Rightarrow>
               (let photoUrl = ''/uploads/completions/'' @ filename
                in case completeRecord now photoUrl userChallenge of
                     Inl e \<Rightarrow> (st, Inl e)
                   | Inr uc' \<Rightarrow>
                       (let st1 = saveUserChallenge uc' st;
                            (st2, trustScoreIncrease) = applyTrustScore uid uc' st1;
                            st3 = checkAndAwardBadges (StringArg uid) st2;
                            st4 = fst (updateGrade uid st3);
                            st5 = updateCompletionRate rateNow cid st4;
                            finalUser = findUserById uid st5
                        in (st5,
                            Inr \<lparr>resp_score = score uc',
                                 resp_totalCompletions = totalCompletions uc',
                                 resp_currentStreakCount = currentStreakCount uc',
                                 resp_maxStreakCount = maxStreakCount uc',
                                 resp_completedDate = setUTCHours0 now,
                                 resp_photoUrl = photoUrl,
                                 resp_trustScore =
                                   (case finalUser of None \<Rightarrow> 0 | Some u \<Rightarrow> trustScore u),
                                 resp_trustScoreIncrease = trustScoreIncrease,
                                 resp_currentGrade =
                                   (case finalUser of None \<Rightarrow> bronze | Some u \<Rightarrow> grade u),
                                 resp_totalBadges =
                                   (case finalUser of None \<Rightarrow> 0
                                    | Some u \<Rightarrow> length (earnedBadges u))\<rparr>)))))"

section \<open>Ranking service\<close>

datatype sortableField = FScore | FTotalCompletions | FCurrentStreakCount | FMaxStreakCount

fun fieldValue :: "sortableField \<Rightarrow> UserChallenge \<Rightarrow> int" where
  "fieldValue FScore uc = score uc"
| "fieldValue FTotalCompletions uc = totalCompletions uc"
| "fieldValue FCurrentStreakCount uc = currentStreakCount uc"
| "fieldValue FMaxStreakCount uc = maxStreakCount uc"

text \<open>The \<^verbatim>\<open>switch\<close> that builds \<^verbatim>\<open>sortField\<close>: each key with its direction.\<close>

definition sortField :: "string \<Rightarrow> (sortableField \<times> int) list" where
  "sortField rankingType =
     (if rankingType = ''completions'' then [(FTotalCompletions, - 1), (FScore, - 1)]
      else if rankingType = ''streak''
      then [(FMaxStreakCount, - 1), (FCurrentStreakCount, - 1), (FScore, - 1)]
      else [(FScore, - 1), (FTotalCompletions, - 1)])"

text \<open>
  The order a sort specification puts on documents: the first key on which two documents
  differ decides, downwards for direction -1 and upwards otherwise.
\<close>

fun sortsBefore :: "(sortableField \<times> int) list \<Rightarrow> UserChallenge \<Rightarrow> UserChallenge \<Rightarrow> bool" where
  "sortsBefore [] a b = False"
| "sortsBefore ((f, dir) # rest) a b =
     (if fieldValue f a = fieldValue f b then sortsBefore rest a b
      else if dir < 0 then fieldValue f a > fieldValue f b
      else fieldValue f a < fieldValue f b)"

text \<open>
  Modelled from the spec: the \<^verbatim>\<open>$sort\<close> stage of the aggregation runs in the database
  and is not code of the repository. The specification has the records "sorted with
  explicit multi-key tie-breaks" by the keys of the metric, and the same query without
  intervening writes yield "an identical ordering"; the stage is taken as a function of
  its input, the insertion sort by these keys, in which documents that agree on every key
  keep their stored order.
\<close>

fun insertDoc ::
  "(sortableField \<times> int) list \<Rightarrow> (UserChallenge \<times> User) \<Rightarrow> (UserChallenge \<times> User) list
     \<Rightarrow> (UserChallenge \<times> User) list" where
  "insertDoc spec d [] = [d]"
| "insertDoc spec d (x # xs) =
     (if sortsBefore spec (fst x) (fst d) then x # insertDoc spec d xs else d # x # xs)"

definition sortStage ::
  "(sortableField \<times> int) list \<Rightarrow> (UserChallenge \<times> User) list
     \<Rightarrow> (UserChallenge \<times> User) list" where
  "sortStage spec docs = foldr (insertDoc spec) docs []"

text \<open>\<^verbatim>\<open>$match\<close>, \<^verbatim>\<open>$lookup\<close> and \<^verbatim>\<open>$unwind\<close>: the records of the challenge whose user exists.\<close>

definition rankingDocs :: "Store \<Rightarrow> objectId \<Rightarrow> (UserChallenge \<times> User) list" where
  "rankingDocs st cid =
     concat (map (\<lambda>uc. case findUserById (userId uc) st of None \<Rightarrow> [] | Some u \<Rightarrow> [(uc, u)])
               (filter (\<lambda>uc. challengeId uc = cid) (userChallenges st)))"

record RankedResult =
  resultRank :: int
  rankedRecord :: UserChallenge
  rankedUser :: User

text \<open>\<^verbatim>\<open>rankings.map((userChallenge, index) => ...)\<close>; the derived statistics are left out.\<close>

definition rankedResults :: "int \<Rightarrow> int \<Rightarrow> (UserChallenge \<times> User) list \<Rightarrow> RankedResult list" where
  "rankedResults page limit rankings =
     map (\<lambda>(index, (uc, u)).
            \<lparr>resultRank = (page - 1) * limit + int index + 1, rankedRecord = uc, rankedUser = u\<rparr>)
         (enumerate 0 rankings)"

text \<open>\<^verbatim>\<open>parseInt(s) || dflt\<close>: NaN (here \<open>None\<close>) and 0 give the default.\<close>

definition parsedOr :: "int option \<Rightarrow> int \<Rightarrow> int" where
  "parsedOr parsed dflt = (case parsed of None \<Rightarrow> dflt | Some n \<Rightarrow> if n = 0 then dflt else n)"

text \<open>
  \<^verbatim>\<open>getChallengeRanking\<close>. \<open>isValid\<close> is \<^verbatim>\<open>mongoose.Types.ObjectId.isValid\<close>;
  \<open>rankingType\<close> is \<^verbatim>\<open>req.query.type || 'score'\<close>. The pipeline matches the records of
  the challenge, joins each with its user, sorts by \<^verbatim>\<open>sortField\<close>, skips and limits. The
  database rejects a negative \<^verbatim>\<open>$skip\<close> and a \<^verbatim>\<open>$limit\<close> that is not positive; the
  \<^verbatim>\<open>catch\<close> answers 500.
\<close>

definition getChallengeRanking ::
  "(objectId \<Rightarrow> bool) \<Rightarrow> Store \<Rightarrow> objectId \<Rightarrow> int option \<Rightarrow> int option \<Rightarrow> string
     \<Rightarrow> error + RankedResult list" where
  "getChallengeRanking isValid st cid pageQuery limitQuery rankingType =
     (let page = parsedOr pageQuery 1; limit = parsedOr limitQuery 20
      in if \<not> isValid cid then Inl InvalidId
         else if findChallengeById cid st = None then Inl NotFound
         else if (page - 1) * limit < 0 \<or> limit \<le> 0 then Inl ServerError
         else (let rankings =
                     take (nat limit)
                       (drop (nat ((page - 1) * limit))
                          (sortStage (sortField rankingType) (rankingDocs st cid)))
               in Inr (rankedResults page limit rankings)))"

text \<open>The \<^verbatim>\<open>$or\<close> of \<^verbatim>\<open>matchCondition\<close> in \<^verbatim>\<open>getMyChallengeRank\<close>, read on one record.\<close>

definition matchCondition :: "string \<Rightarrow> UserChallenge \<Rightarrow> UserChallenge \<Rightarrow> bool" where
  "matchCondition rankingType my uc =
     (if rankingType = ''completions''
      then totalCompletions uc > totalCompletions my
           \<or> (totalCompletions uc = totalCompletions my \<and> score uc > score my)
      else if rankingType = ''streak''
      then maxStreakCount uc > maxStreakCount my
           \<or> (maxStreakCount uc = maxStreakCount my
               \<and> currentStreakCount uc > currentStreakCount my)
           \<or> (maxStreakCount uc = maxStreakCount my
               \<and> currentStreakCount uc = currentStreakCount my \<and> score uc > score my)
      else score uc > score my
           \<or> (score uc = score my \<and> totalCompletions uc > totalCompletions my))"

definition myValue :: "string \<Rightarrow> UserChallenge \<Rightarrow> int" where
  "myValue rankingType my =
     (if rankingType = ''completions'' then totalCompletions my
      else if rankingType = ''streak'' then maxStreakCount my
      else score my)"

record MyRankResponse =
  resp_rank :: int
  resp_totalParticipants :: int
  resp_percentile :: int
  resp_value :: int

text \<open>
  \<^verbatim>\<open>getMyChallengeRank\<close>; the two \<^verbatim>\<open>countDocuments\<close> run over the stored records of the
  challenge. The percentile is
  \<^verbatim>\<open>Math.round(((totalParticipants - myRank + 1) / totalParticipants) * 100)\<close>, in double
  precision.
\<close>

definition challengeRecords :: "Store \<Rightarrow> objectId \<Rightarrow> UserChallenge list" where
  "challengeRecords st cid = filter (\<lambda>uc. challengeId uc = cid) (userChallenges st)"

definition getMyChallengeRank ::
  "(objectId \<Rightarrow> bool) \<Rightarrow> Store \<Rightarrow> objectId \<Rightarrow> objectId \<Rightarrow> string \<Rightarrow> error + MyRankResponse" where
  "getMyChallengeRank isValid st uid cid rankingType =
     (if \<not> isValid cid then Inl InvalidId
      else case findUserChallenge uid cid st of
             None \<Rightarrow> Inl NotFound
           | Some myUserChallenge \<Rightarrow>
               (let higherRankCount =
                      int (length (filter (matchCondition rankingType myUserChallenge)
                                     (challengeRecords st cid)));
                    myRank = higherRankCount + 1;
                    totalParticipants = int (length (challengeRecords st cid))
                in Inr \<lparr>resp_rank = myRank,
                        resp_totalParticipants = totalParticipants,
                        resp_percentile =
                          mathRound (jsMul (jsDiv (of_int (totalParticipants - myRank + 1))
                                                  (of_int totalParticipants)) 100),
                        resp_value = myValue rankingType myUserChallenge\<rparr>))"

section \<open>Example data\<close>

text \<open>The photo entries that go with a list of completed days.\<close>

definition photosOf :: "date list \<Rightarrow> (date \<times> string) list" where
  "photosOf days = map (\<lambda>d. (d, ''/uploads/completions/photo.jpg'')) days"

text \<open>A user with twelve earned badges whose stored grade is still the base tier.\<close>

definition gradeUser :: User where
  "gradeUser =
     \<lparr>user_id = ''u1'', grade = bronze, trustScore = 0, representativeBadges = [],
      earnedBadges = [''b01'', ''b02'', ''b03'', ''b04'', ''b05'', ''b06'',
                      ''b07'', ''b08'', ''b09'', ''b10'', ''b11'', ''b12'']\<rparr>"

definition gradeStore :: Store where
  "gradeStore = \<lparr>userChallenges = [], users = [gradeUser], challenges = [], badgeCatalog = []\<rparr>"

text \<open>
  A record with a streak of nine days, completed on each of the days 0 to 8, its user one
  point below the cap of the trust score, and a request early on day 9.
\<close>

definition dayRecord :: UserChallenge where
  "dayRecord =
     \<lparr>userId = ''u1'', challengeId = ''c1'',
      completedDates = [0, 86400000, 172800000, 259200000, 345600000, 432000000,
                        518400000, 604800000, 691200000],
      completionPhotos = photosOf [0, 86400000, 172800000, 259200000, 345600000, 432000000,
                                   518400000, 604800000, 691200000],
      startDate = 0, rank = 0, score = 90, totalCompletions = 9,
      currentStreakCount = 9, maxStreakCount = 9, lastCompletionDate = Some 691200000\<rparr>"

definition dayUser :: User where
  "dayUser = \<lparr>user_id = ''u1'', grade = bronze, trustScore = 99,
              representativeBadges = [], earnedBadges = []\<rparr>"

definition dayChallenge :: Challenge where
  "dayChallenge = \<lparr>challenge_id = ''c1'', category = ''health'', completionRate = 90\<rparr>"

definition dayStore :: Store where
  "dayStore = \<lparr>userChallenges = [dayRecord], users = [dayUser],
               challenges = [dayChallenge], badgeCatalog = []\<rparr>"

definition dayNow :: date where
  "dayNow = 781200000"

definition dayRecordAfter :: UserChallenge where
  "dayRecordAfter =
     \<lparr>userId = ''u1'', challengeId = ''c1'',
      completedDates = [0, 86400000, 172800000, 259200000, 345600000, 432000000,
                        518400000, 604800000, 691200000, 777600000],
      completionPhotos = photosOf [0, 86400000, 172800000, 259200000, 345600000, 432000000,
                                   518400000, 604800000, 691200000]
                           @ [(777600000, ''/uploads/completions/p.jpg'')],
      startDate = 0, rank = 0, score = 100, totalCompletions = 10,
      currentStreakCount = 10, maxStreakCount = 10, lastCompletionDate = Some 777600000\<rparr>"

definition dayStoreAfter :: Store where
  "dayStoreAfter =
     \<lparr>userChallenges = [dayRecordAfter],
      users = [dayUser\<lparr>trustScore := 100\<rparr>],
      challenges = [dayChallenge\<lparr>completionRate := 100\<rparr>],
      badgeCatalog = []\<rparr>"

definition dayResponse :: CompletionResponse where
  "dayResponse =
     \<lparr>resp_score = 100, resp_totalCompletions = 10, resp_currentStreakCount = 10,
      resp_maxStreakCount = 10, resp_completedDate = 777600000,
      resp_photoUrl = ''/uploads/completions/p.jpg'', resp_trustScore = 100,
      resp_trustScoreIncrease = 3, resp_currentGrade = bronze, resp_totalBadges = 0\<rparr>"

text \<open>
  A user four completions into a challenge, a catalog whose only badge asks for five
  completions, and a request on the fifth day.
\<close>

definition fifthBadge :: Badge where
  "fifthBadge = \<lparr>badge_id = ''b5'',
                 condition = \<lparr>ctype = Completions, cvalue = 5, categoryTarget = None\<rparr>\<rparr>"

definition badgeRecord :: UserChallenge where
  "badgeRecord =
     \<lparr>userId = ''u1'', challengeId = ''c1'',
      completedDates = [0, 86400000, 172800000, 259200000],
      completionPhotos = photosOf [0, 86400000, 172800000, 259200000],
      startDate = 0, rank = 0, score = 40, totalCompletions = 4,
      currentStreakCount = 4, maxStreakCount = 4, lastCompletionDate = Some 259200000\<rparr>"

definition badgeUser :: User where
  "badgeUser = \<lparr>user_id = ''u1'', grade = bronze, trustScore = 10,
                representativeBadges = [], earnedBadges = []\<rparr>"

definition badgeStore :: Store where
  "badgeStore = \<lparr>userChallenges = [badgeRecord], users = [badgeUser],
                 challenges = [\<lparr>challenge_id = ''c1'', category = ''health'',
                                completionRate = 100\<rparr>],
                 badgeCatalog = [fifthBadge]\<rparr>"

definition badgeNow :: date where
  "badgeNow = 345600000 + 3600000"


text \<open>
  A participant who joined at 23:00 UTC of day 0 and completed at 23:30 and, on day 1, at
  00:30, the instant of the recompute.
\<close>

definition lateRecord :: UserChallenge where
  "lateRecord =
     \<lparr>userId = ''u1'', challengeId = ''c1'',
      completedDates = [0, 86400000],
      completionPhotos = photosOf [0, 86400000],
      startDate = 82800000, rank = 0, score = 20, totalCompletions = 2,
      currentStreakCount = 2, maxStreakCount = 2, lastCompletionDate = Some 86400000\<rparr>"

definition lateStore :: Store where
  "lateStore = \<lparr>userChallenges = [lateRecord], users = [badgeUser],
                 challenges = [\<lparr>challenge_id = ''c1'', category = ''health'',
                                completionRate = 100\<rparr>],
                 badgeCatalog = []\<rparr>"


text \<open>
  A user who earned a first badge and moved it to slot 2 of the representative badges, and
  a catalog with a second badge for a streak of two days, which the user has reached.
\<close>

definition clashUser :: User where
  "clashUser = \<lparr>user_id = ''u1'', grade = bronze, trustScore = 1,
                representativeBadges = [(''b1'', 2)], earnedBadges = [''b1'']\<rparr>"

definition firstBadge :: Badge where
  "firstBadge = \<lparr>badge_id = ''b1'',
                 condition = \<lparr>ctype = Completions, cvalue = 1, categoryTarget = None\<rparr>\<rparr>"

definition secondBadge :: Badge where
  "secondBadge = \<lparr>badge_id = ''b2'',
                 condition = \<lparr>ctype = Streak, cvalue = 2, categoryTarget = None\<rparr>\<rparr>"

definition clashStore :: Store where
  "clashStore = \<lparr>userChallenges = [lateRecord\<lparr>startDate := 0\<rparr>], users = [clashUser],
                 challenges = [\<lparr>challenge_id = ''c1'', category = ''health'',
                                completionRate = 100\<rparr>],
                 badgeCatalog = [firstBadge, secondBadge]\<rparr>"


definition lateNow :: date where
  "lateNow = 88200000"

definition badgeStoreAfter :: Store where
  "badgeStoreAfter =
     \<lparr>userChallenges =
        [badgeRecord\<lparr>completedDates := [0, 86400000, 172800000, 259200000, 345600000],
                      completionPhotos := photosOf [0, 86400000, 172800000, 259200000]
                                            @ [(345600000, ''/uploads/completions/p.jpg'')],
                      score := 50, totalCompletions := 5, currentStreakCount := 5,
                      maxStreakCount := 5, lastCompletionDate := Some 345600000\<rparr>],
      users = [badgeUser\<lparr>trustScore := 12\<rparr>],
      challenges = [\<lparr>challenge_id = ''c1'', category = ''health'', completionRate = 100\<rparr>],
      badgeCatalog = [fifthBadge]\<rparr>"

definition badgeResponse :: CompletionResponse where
  "badgeResponse =
     \<lparr>resp_score = 50, resp_totalCompletions = 5, resp_currentStreakCount = 5,
      resp_maxStreakCount = 5, resp_completedDate = 345600000,
      resp_photoUrl = ''/uploads/completions/p.jpg'', resp_trustScore = 12,
      resp_trustScoreIncrease = 2, resp_currentGrade = bronze, resp_totalBadges = 0\<rparr>"

text \<open>A validity check of identifiers that accepts every string, for the examples.\<close>

definition anyObjectId :: "objectId \<Rightarrow> bool" where
  "anyObjectId s = True"

text \<open>
  A challenge with 201 participants: 200 with one completion each and one, the caller, who
  has just joined.
\<close>

definition crowdRecord :: "nat \<Rightarrow> UserChallenge" where
  "crowdRecord i =
     (newUserChallenge (''p'' @ replicate i (CHR ''x'')) ''c1'' 0)
       \<lparr>completedDates := [0], completionPhotos := photosOf [0],
        score := 10, totalCompletions := 1,
        currentStreakCount := 1, maxStreakCount := 1, lastCompletionDate := Some 0\<rparr>"

definition crowdStore :: Store where
  "crowdStore =
     \<lparr>userChallenges = newUserChallenge ''me'' ''c1'' 0 # map crowdRecord [0..<200],
      users = [], challenges = [\<lparr>challenge_id = ''c1'', category = ''health'',
                                 completionRate = 3\<rparr>],
      badgeCatalog = []\<rparr>"


text \<open>
  A challenge with three participants. A completed days 0, 1, 2; B completed days 0, 1, 3;
  C completed days 2, 3. A and B agree on score and completions and differ on the streaks.
\<close>

definition rankA :: UserChallenge where
  "rankA = (newUserChallenge ''uA'' ''c1'' 0)
             \<lparr>completedDates := [0, 86400000, 172800000],
              completionPhotos := photosOf [0, 86400000, 172800000],
              score := 30, totalCompletions := 3,
              currentStreakCount := 3, maxStreakCount := 3,
              lastCompletionDate := Some 172800000\<rparr>"

definition rankB :: UserChallenge where
  "rankB = (newUserChallenge ''uB'' ''c1'' 0)
             \<lparr>completedDates := [0, 86400000, 259200000],
              completionPhotos := photosOf [0, 86400000, 259200000],
              score := 30, totalCompletions := 3,
              currentStreakCount := 1, maxStreakCount := 2,
              lastCompletionDate := Some 259200000\<rparr>"

definition rankC :: UserChallenge where
  "rankC = (newUserChallenge ''uC'' ''c1'' 0)
             \<lparr>completedDates := [172800000, 259200000],
              completionPhotos := photosOf [172800000, 259200000],
              score := 20, totalCompletions := 2,
              currentStreakCount := 2, maxStreakCount := 2,
              lastCompletionDate := Some 259200000\<rparr>"

definition rankUser :: "objectId \<Rightarrow> User" where
  "rankUser uid = \<lparr>user_id = uid, grade = bronze, trustScore = 0,
                   representativeBadges = [], earnedBadges = []\<rparr>"

definition rankStore :: Store where
  "rankStore =
     \<lparr>userChallenges = [rankA, rankB, rankC],
      users = [rankUser ''uA'', rankUser ''uB'', rankUser ''uC''],
      challenges = [\<lparr>challenge_id = ''c1'', category = ''study'', completionRate = 67\<rparr>],
      badgeCatalog = []\<rparr>"

definition rankResponseC :: MyRankResponse where
  "rankResponseC = \<lparr>resp_rank = 2, resp_totalParticipants = 3, resp_percentile = 67,
                     resp_value = 2\<rparr>"

definition rankResponseB :: MyRankResponse where
  "rankResponseB = \<lparr>resp_rank = 3, resp_totalParticipants = 3, resp_percentile = 33,
                     resp_value = 2\<rparr>"


text \<open>
  A challenge with 40 participants: 17 with two completions each, the caller with one, and
  22 who have just joined.
\<close>

definition aheadRecord :: "nat \<Rightarrow> UserChallenge" where
  "aheadRecord i =
     (newUserChallenge (''a'' @ replicate i (CHR ''x'')) ''c1'' 0)
       \<lparr>completedDates := [0, 86400000], completionPhotos := photosOf [0, 86400000],
        score := 20, totalCompletions := 2, currentStreakCount := 2, maxStreakCount := 2,
        lastCompletionDate := Some 86400000\<rparr>"

definition behindRecord :: "nat \<Rightarrow> UserChallenge" where
  "behindRecord i = newUserChallenge (''b'' @ replicate i (CHR ''x'')) ''c1'' 0"

definition middleRecord :: UserChallenge where
  "middleRecord =
     (newUserChallenge ''me'' ''c1'' 0)
       \<lparr>completedDates := [0], completionPhotos := photosOf [0],
        score := 10, totalCompletions := 1, currentStreakCount := 1, maxStreakCount := 1,
        lastCompletionDate := Some 0\<rparr>"

definition fortyStore :: Store where
  "fortyStore =
     \<lparr>userChallenges = middleRecord # map aheadRecord [0..<17] @ map behindRecord [0..<22],
      users = [], challenges = [\<lparr>challenge_id = ''c1'', category = ''health'',
                                 completionRate = 6\<rparr>],
      badgeCatalog = []\<rparr>"

section \<open>Properties of the store operations\<close>

lemma find_replaceFirst_same:
  "P y \<Longrightarrow> find P xs = Some x \<Longrightarrow> find P (replaceFirst P y xs) = Some y"
  by (induction xs) (auto split: if_splits)

lemma find_Some_holds: "find P xs = Some x \<Longrightarrow> P x \<and> x \<in> set xs"
  by (induction xs) (auto split: if_splits)

lemma findUserById_saveUser:
  "findUserById uid st = Some u \<Longrightarrow> user_id u' = uid
     \<Longrightarrow> findUserById uid (saveUser u' st) = Some u'"
  unfolding findUserById_def saveUser_def
  using find_replaceFirst_same [of "\<lambda>x. user_id x = uid" u' "users st" u] by simp

lemma findUserChallenge_saveUserChallenge:
  "findUserChallenge uid cid st = Some uc \<Longrightarrow> userId uc' = uid \<Longrightarrow> challengeId uc' = cid
     \<Longrightarrow> findUserChallenge uid cid (saveUserChallenge uc' st) = Some uc'"
  unfolding findUserChallenge_def saveUserChallenge_def
  using find_replaceFirst_same
          [of "\<lambda>x. userId x = uid \<and> challengeId x = cid" uc' "userChallenges st" uc]
  by simp

lemma saveUser_fields [simp]:
  "userChallenges (saveUser u st) = userChallenges st"
  "challenges (saveUser u st) = challenges st"
  "badgeCatalog (saveUser u st) = badgeCatalog st"
  by (simp_all add: saveUser_def)

lemma saveUserChallenge_fields [simp]:
  "users (saveUserChallenge uc st) = users st"
  "challenges (saveUserChallenge uc st) = challenges st"
  "badgeCatalog (saveUserChallenge uc st) = badgeCatalog st"
  by (simp_all add: saveUserChallenge_def)

lemma saveChallenge_fields [simp]:
  "users (saveChallenge c st) = users st"
  "userChallenges (saveChallenge c st) = userChallenges st"
  "badgeCatalog (saveChallenge c st) = badgeCatalog st"
  by (simp_all add: saveChallenge_def)

lemma updateCompletionRate_fields [simp]:
  "users (updateCompletionRate now cid st) = users st"
  "userChallenges (updateCompletionRate now cid st) = userChallenges st"
  "badgeCatalog (updateCompletionRate now cid st) = badgeCatalog st"
  by (simp_all add: updateCompletionRate_def Let_def split: option.splits)

lemma updateGrade_fields [simp]:
  "userChallenges (fst (updateGrade uid st)) = userChallenges st"
  "challenges (fst (updateGrade uid st)) = challenges st"
  "badgeCatalog (fst (updateGrade uid st)) = badgeCatalog st"
  by (simp_all add: updateGrade_def Let_def split: option.splits)

text \<open>Called with a string, the badge engine stops at its first line.\<close>

lemma checkAndAwardBadges_string [simp]:
  "checkAndAwardBadges (StringArg s) st = st"
  by (simp add: checkAndAwardBadges_def)

lemma findUserById_cong:
  "users st' = users st \<Longrightarrow> findUserById uid st' = findUserById uid st"
  by (simp add: findUserById_def)

lemma findUserChallenge_cong:
  "userChallenges st' = userChallenges st
     \<Longrightarrow> findUserChallenge uid cid st' = findUserChallenge uid cid st"
  by (simp add: findUserChallenge_def)

lemma updateGrade_user:
  assumes "findUserById uid st = Some u"
  shows "findUserById uid (fst (updateGrade uid st))
           = Some (u\<lparr>grade := gradeForBadgeCount (length (earnedBadges u))\<rparr>)"
proof (cases "grade u = gradeForBadgeCount (length (earnedBadges u))")
  case True
  then have "u\<lparr>grade := gradeForBadgeCount (length (earnedBadges u))\<rparr> = u" by simp
  with True assms show ?thesis by (simp add: updateGrade_def Let_def)
next
  case False
  from assms have "user_id u = uid"
    using find_Some_holds [of "\<lambda>x. user_id x = uid" "users st" u]
    by (simp add: findUserById_def)
  with False assms show ?thesis
    by (simp add: updateGrade_def Let_def findUserById_saveUser)
qed

section \<open>Properties of the grade classifier\<close>

text \<open>
  Claim C7. The grade depends on the number of earned badges alone: 40 or more give diamond,
  otherwise 20 or more give gold, otherwise 10 or more give silver, otherwise bronze; so 12
  badges give silver, 20 and 39 give gold, 40 give diamond. The grade update saves the user
  exactly when the computed grade differs from the stored one, leaves the store as it is
  otherwise, and afterwards the stored grade is the computed one.
\<close>

theorem grade_classifier:
  "(gradeForBadgeCount n = diamond \<longleftrightarrow> 40 \<le> n)
   \<and> (gradeForBadgeCount n = gold \<longleftrightarrow> 20 \<le> n \<and> n < 40)
   \<and> (gradeForBadgeCount n = silver \<longleftrightarrow> 10 \<le> n \<and> n < 20)
   \<and> (gradeForBadgeCount n = bronze \<longleftrightarrow> n < 10)
   \<and> gradeForBadgeCount 12 = silver \<and> gradeForBadgeCount 20 = gold
   \<and> gradeForBadgeCount 39 = gold \<and> gradeForBadgeCount 40 = diamond
   \<and> (findUserById uid st = Some u \<longrightarrow>
        snd (updateGrade uid st) = (grade u \<noteq> gradeForBadgeCount (length (earnedBadges u)))
        \<and> (\<not> snd (updateGrade uid st) \<longrightarrow> fst (updateGrade uid st) = st)
        \<and> findUserById uid (fst (updateGrade uid st))
            = Some (u\<lparr>grade := gradeForBadgeCount (length (earnedBadges u))\<rparr>))"
proof -
  have a: "(gradeForBadgeCount n = diamond \<longleftrightarrow> 40 \<le> n)
   \<and> (gradeForBadgeCount n = gold \<longleftrightarrow> 20 \<le> n \<and> n < 40)
   \<and> (gradeForBadgeCount n = silver \<longleftrightarrow> 10 \<le> n \<and> n < 20)
   \<and> (gradeForBadgeCount n = bronze \<longleftrightarrow> n < 10)"
    by (simp add: gradeForBadgeCount_def)
  have b: "gradeForBadgeCount 12 = silver \<and> gradeForBadgeCount 20 = gold
   \<and> gradeForBadgeCount 39 = gold \<and> gradeForBadgeCount 40 = diamond"
    by (simp add: gradeForBadgeCount_def)
  have c: "findUserById uid st = Some u \<longrightarrow>
        snd (updateGrade uid st) = (grade u \<noteq> gradeForBadgeCount (length (earnedBadges u)))
        \<and> (\<not> snd (updateGrade uid st) \<longrightarrow> fst (updateGrade uid st) = st)"
    by (simp add: updateGrade_def Let_def)
  from a b c updateGrade_user show ?thesis by blast
qed

theorem grade_classifier_witness:
  "findUserById ''u1'' gradeStore = Some gradeUser
   \<and> snd (updateGrade ''u1'' gradeStore)
   \<and> findUserById ''u1'' (fst (updateGrade ''u1'' gradeStore))
       = Some (gradeUser\<lparr>grade := silver\<rparr>)"
proof -
  have h: "findUserById ''u1'' gradeStore = Some gradeUser"
    by (simp add: findUserById_def gradeStore_def gradeUser_def)
  have g: "gradeForBadgeCount (length (earnedBadges gradeUser)) = silver"
    by (simp add: gradeForBadgeCount_def gradeUser_def)
  have b: "grade gradeUser = bronze" by (simp add: gradeUser_def)
  from grade_classifier [of 12 "''u1''" gradeStore gradeUser] h g b show ?thesis by simp
qed

section \<open>Properties of the completion recorder\<close>

lemma completedOn_iff: "completedOn day uc \<longleftrightarrow> day \<in> set (completedDates uc)"
  by (auto simp: completedOn_def list_ex_iff)

lemma applyCompletion_fields:
  "userId (applyCompletion t p uc) = userId uc"
  "challengeId (applyCompletion t p uc) = challengeId uc"
  "startDate (applyCompletion t p uc) = startDate uc"
  "completedDates (applyCompletion t p uc) = completedDates uc @ [t]"
  "completionPhotos (applyCompletion t p uc) = completionPhotos uc @ [(t, p)]"
  "totalCompletions (applyCompletion t p uc) = totalCompletions uc + 1"
  "score (applyCompletion t p uc) = score uc + 10"
  "lastCompletionDate (applyCompletion t p uc) = Some t"
  by (simp_all add: applyCompletion_def Let_def)

lemma msPerDay_pos: "0 < msPerDay"
  by (simp add: msPerDay_def)

lemma applyCompletion_streak:
  "currentStreakCount (applyCompletion t p uc)
     = (if t - msPerDay \<in> set (completedDates uc) then currentStreakCount uc + 1 else 1)"
  "maxStreakCount (applyCompletion t p uc)
     = max (maxStreakCount uc) (currentStreakCount (applyCompletion t p uc))"
  using msPerDay_pos
  by (auto simp: applyCompletion_def Let_def completedOn_iff previousUTCDate_def)

lemma completeRecord_cases:
  "setUTCHours0 now \<in> set (completedDates uc)
     \<Longrightarrow> completeRecord now p uc = Inl AlreadyCompletedToday"
  "setUTCHours0 now \<notin> set (completedDates uc)
     \<Longrightarrow> completeRecord now p uc = Inr (applyCompletion (setUTCHours0 now) p uc)"
  by (simp_all add: completeRecord_def completedOn_iff)

lemma completeChallenge_rejected:
  assumes "findUserChallenge uid cid st = Some uc"
    and "completeRecord now (''/uploads/completions/'' @ filename) uc = Inl e"
  shows "completeChallenge now rateNow uid cid (Some filename) st = (st, Inl e)"
  using assms by (simp add: completeChallenge_def)

lemma completeChallenge_accepted:
  assumes f: "findUserChallenge uid cid st = Some uc"
    and r: "completeRecord now (''/uploads/completions/'' @ filename) uc = Inr uc'"
  shows "\<exists>st' resp. completeChallenge now rateNow uid cid (Some filename) st = (st', Inr resp)
           \<and> findUserChallenge uid cid st' = Some uc'
           \<and> resp_score resp = score uc'
           \<and> resp_totalCompletions resp = totalCompletions uc'
           \<and> resp_currentStreakCount resp = currentStreakCount uc'
           \<and> resp_maxStreakCount resp = maxStreakCount uc'
           \<and> resp_completedDate resp = setUTCHours0 now"
proof -
  from f have k: "userId uc = uid \<and> challengeId uc = cid"
    using find_Some_holds [of "\<lambda>x. userId x = uid \<and> challengeId x = cid" "userChallenges st" uc]
    by (simp add: findUserChallenge_def)
  from r have "uc' = applyCompletion (setUTCHours0 now) (''/uploads/completions/'' @ filename) uc"
    by (auto simp: completeRecord_def Let_def split: if_splits)
  with k have k': "userId uc' = uid \<and> challengeId uc' = cid"
    by (simp add: applyCompletion_fields)
  have s: "findUserChallenge uid cid (saveUserChallenge uc' st) = Some uc'"
    using findUserChallenge_saveUserChallenge [OF f] k' by simp
  obtain st2 inc where t: "applyTrustScore uid uc' (saveUserChallenge uc' st) = (st2, inc)"
    by (cases "applyTrustScore uid uc' (saveUserChallenge uc' st)")
  then have u2: "userChallenges st2 = userChallenges (saveUserChallenge uc' st)"
    by (auto simp: applyTrustScore_def Let_def split: option.splits)
  have "findUserChallenge uid cid (updateCompletionRate rateNow cid (fst (updateGrade uid st2)))
          = Some uc'"
    using s u2 by (simp add: findUserChallenge_def)
  with f r t show ?thesis
    by (simp add: completeChallenge_def Let_def)
qed

lemma completeAll_counts:
  "completeAll reqs uc = Inr r
     \<Longrightarrow> score r = score uc + 10 * int (length reqs)
         \<and> totalCompletions r = totalCompletions uc + int (length reqs)
         \<and> length (completedDates r) = length (completedDates uc) + length reqs"
proof (induction reqs arbitrary: uc)
  case Nil
  then show ?case by simp
next
  case (Cons a reqs)
  obtain now p where a: "a = (now, p)" by (cases a)
  from Cons.prems a obtain uc1 where
    s: "completeRecord now p uc = Inr uc1" and rest: "completeAll reqs uc1 = Inr r"
    by (auto split: sum.splits)
  from s have "uc1 = applyCompletion (setUTCHours0 now) p uc"
    by (auto simp: completeRecord_def Let_def split: if_splits)
  then have "score uc1 = score uc + 10 \<and> totalCompletions uc1 = totalCompletions uc + 1
             \<and> length (completedDates uc1) = length (completedDates uc) + 1"
    by (simp add: applyCompletion_fields)
  with Cons.IH [OF rest] show ?case by simp
qed

lemma completeAll_succeeds:
  "distinct (map (\<lambda>q. setUTCHours0 (fst q)) reqs)
     \<Longrightarrow> list_all (\<lambda>q. setUTCHours0 (fst q) \<notin> set (completedDates uc)) reqs
     \<Longrightarrow> \<exists>r. completeAll reqs uc = Inr r"
proof (induction reqs arbitrary: uc)
  case Nil
  then show ?case by simp
next
  case (Cons a reqs)
  obtain now p where a: "a = (now, p)" by (cases a)
  let ?uc1 = "applyCompletion (setUTCHours0 now) p uc"
  from Cons.prems a have s: "completeRecord now p uc = Inr ?uc1"
    by (simp add: completeRecord_cases)
  from Cons.prems a have d: "distinct (map (\<lambda>q. setUTCHours0 (fst q)) reqs)" by simp
  from Cons.prems a
  have "list_all (\<lambda>q. setUTCHours0 (fst q) \<notin> set (completedDates ?uc1)) reqs"
    by (force simp: list_all_iff applyCompletion_fields image_iff)
  from Cons.IH [OF d this] s a show ?case by simp
qed

text \<open>
  Claim C1. For a progress record that exists, the completion fails with
  AlreadyCompletedToday exactly when today's UTC midnight is already in completedDates, and
  succeeds exactly when it is not. A failure leaves the store as it is. A success appends
  today to completedDates and (today, photo) to completionPhotos, adds 1 to totalCompletions
  and 10 to score, sets lastCompletionDate to today, keeps the identifiers and the start
  date, and a second request on the same UTC day is rejected with the store unchanged.
  From a fresh record, N successful completions give score 10 * N, and requests on N
  different UTC days all succeed.
\<close>

theorem completion_once_per_day:
  assumes f: "findUserChallenge uid cid st = Some uc"
  shows
    "(let today = setUTCHours0 now;
          photoUrl = ''/uploads/completions/'' @ filename;
          res = completeChallenge now rateNow uid cid (Some filename) st
      in (snd res = Inl AlreadyCompletedToday \<longleftrightarrow> today \<in> set (completedDates uc))
         \<and> ((\<exists>resp. snd res = Inr resp) \<longleftrightarrow> today \<notin> set (completedDates uc))
         \<and> (today \<in> set (completedDates uc) \<longrightarrow> fst res = st)
         \<and> (today \<notin> set (completedDates uc) \<longrightarrow>
              (\<exists>uc'. findUserChallenge uid cid (fst res) = Some uc'
                 \<and> completedDates uc' = completedDates uc @ [today]
                 \<and> completionPhotos uc' = completionPhotos uc @ [(today, photoUrl)]
                 \<and> totalCompletions uc' = totalCompletions uc + 1
                 \<and> score uc' = score uc + 10
                 \<and> lastCompletionDate uc' = Some today
                 \<and> userId uc' = userId uc \<and> challengeId uc' = challengeId uc
                 \<and> startDate uc' = startDate uc)
              \<and> (setUTCHours0 now2 = today \<longrightarrow>
                    completeChallenge now2 rateNow2 uid cid (Some filename2) (fst res)
                      = (fst res, Inl AlreadyCompletedToday)))
         \<and> (completeAll reqs (newUserChallenge uid cid joined) = Inr r \<longrightarrow>
               score r = 10 * int (length reqs) \<and> totalCompletions r = int (length reqs))
         \<and> (distinct (map (\<lambda>q. setUTCHours0 (fst q)) reqs) \<longrightarrow>
               (\<exists>r. completeAll reqs (newUserChallenge uid cid joined) = Inr r)))"
proof -
  let ?today = "setUTCHours0 now"
  let ?url = "''/uploads/completions/'' @ filename"
  let ?res = "completeChallenge now rateNow uid cid (Some filename) st"
  have dup: "?today \<in> set (completedDates uc) \<Longrightarrow> ?res = (st, Inl AlreadyCompletedToday)"
    using completeChallenge_rejected [OF f] by (simp add: completeRecord_cases)
  have fresh: "\<exists>st' resp. ?res = (st', Inr resp)
                 \<and> findUserChallenge uid cid st' = Some (applyCompletion ?today ?url uc)"
    if "?today \<notin> set (completedDates uc)"
    using completeChallenge_accepted [OF f, of now filename "applyCompletion ?today ?url uc" rateNow]
      that by (auto simp: completeRecord_cases)
  have p1: "snd ?res = Inl AlreadyCompletedToday \<longleftrightarrow> ?today \<in> set (completedDates uc)"
    using dup fresh by (cases "?today \<in> set (completedDates uc)") auto
  have p2: "(\<exists>resp. snd ?res = Inr resp) \<longleftrightarrow> ?today \<notin> set (completedDates uc)"
    using dup fresh by (cases "?today \<in> set (completedDates uc)") auto
  have p3: "?today \<in> set (completedDates uc) \<longrightarrow> fst ?res = st"
    using dup by simp
  have p4: "\<exists>uc'. findUserChallenge uid cid (fst ?res) = Some uc'
                 \<and> completedDates uc' = completedDates uc @ [?today]
                 \<and> completionPhotos uc' = completionPhotos uc @ [(?today, ?url)]
                 \<and> totalCompletions uc' = totalCompletions uc + 1
                 \<and> score uc' = score uc + 10
                 \<and> lastCompletionDate uc' = Some ?today
                 \<and> userId uc' = userId uc \<and> challengeId uc' = challengeId uc
                 \<and> startDate uc' = startDate uc"
    if "?today \<notin> set (completedDates uc)"
    using fresh [OF that] by (auto simp: applyCompletion_fields)
  have p5: "completeChallenge now2 rateNow2 uid cid (Some filename2) (fst ?res)
              = (fst ?res, Inl AlreadyCompletedToday)"
    if n: "?today \<notin> set (completedDates uc)" and s: "setUTCHours0 now2 = ?today"
  proof -
    from fresh [OF n] have g: "findUserChallenge uid cid (fst ?res)
                                 = Some (applyCompletion ?today ?url uc)"
      by auto
    have "setUTCHours0 now2 \<in> set (completedDates (applyCompletion ?today ?url uc))"
      using s by (simp add: applyCompletion_fields)
    then show ?thesis
      using completeChallenge_rejected [OF g] by (simp add: completeRecord_cases)
  qed
  have p6: "completeAll reqs (newUserChallenge uid cid joined) = Inr r \<longrightarrow>
               score r = 10 * int (length reqs) \<and> totalCompletions r = int (length reqs)"
    using completeAll_counts [of reqs "newUserChallenge uid cid joined" r]
    by (simp add: newUserChallenge_def)
  have p7: "distinct (map (\<lambda>q. setUTCHours0 (fst q)) reqs) \<longrightarrow>
               (\<exists>r. completeAll reqs (newUserChallenge uid cid joined) = Inr r)"
    using completeAll_succeeds [of reqs "newUserChallenge uid cid joined"]
    by (simp add: newUserChallenge_def list_all_iff)
  from p1 p2 p3 p4 p5 p6 p7 show ?thesis
    unfolding Let_def by blast
qed

lemma day_completion:
  "completeChallenge dayNow dayNow ''u1'' ''c1'' (Some ''p.jpg'') dayStore
     = (dayStoreAfter, Inr dayResponse)"
  by code_simp

lemma day_lookup:
  "findUserChallenge ''u1'' ''c1'' dayStore = Some dayRecord"
  "findUserById ''u1'' dayStore = Some dayUser"
  by (simp_all add: findUserChallenge_def findUserById_def dayStore_def dayRecord_def
        dayUser_def)

lemma day_today:
  "setUTCHours0 dayNow = 777600000"
  "setUTCHours0 (dayNow + 60000) = 777600000"
  by (simp_all add: setUTCHours0_def dayNow_def msPerDay_def)

theorem completion_once_per_day_witness:
  "findUserChallenge ''u1'' ''c1'' dayStore = Some dayRecord
   \<and> (\<exists>resp. snd (completeChallenge dayNow dayNow ''u1'' ''c1'' (Some ''p.jpg'') dayStore)
               = Inr resp)
   \<and> findUserChallenge ''u1'' ''c1''
        (fst (completeChallenge dayNow dayNow ''u1'' ''c1'' (Some ''p.jpg'') dayStore))
       = Some dayRecordAfter
   \<and> completeChallenge (dayNow + 60000) (dayNow + 60000) ''u1'' ''c1'' (Some ''q.jpg'')
        (fst (completeChallenge dayNow dayNow ''u1'' ''c1'' (Some ''p.jpg'') dayStore))
       = (fst (completeChallenge dayNow dayNow ''u1'' ''c1'' (Some ''p.jpg'') dayStore),
          Inl AlreadyCompletedToday)"
proof -
  have n: "setUTCHours0 dayNow \<notin> set (completedDates dayRecord)"
    by (simp add: day_today dayRecord_def)
  have a: "findUserChallenge ''u1'' ''c1'' dayStoreAfter = Some dayRecordAfter"
    by (simp add: findUserChallenge_def dayStoreAfter_def dayRecordAfter_def)
  from completion_once_per_day
         [OF day_lookup(1), of dayNow "''p.jpg''" dayNow "dayNow + 60000" "dayNow + 60000"
            "''q.jpg''", unfolded Let_def]
    n day_today day_lookup(1) a
  show ?thesis by (simp add: day_completion)
qed

lemma completeRecord_Inr:
  "completeRecord now p uc = Inr uc'
     \<Longrightarrow> uc' = applyCompletion (setUTCHours0 now) p uc
         \<and> setUTCHours0 now \<notin> set (completedDates uc)"
  by (auto simp: completeRecord_def Let_def completedOn_iff split: if_splits)

lemma three_consecutive_days:
  assumes d2: "setUTCHours0 n2 = setUTCHours0 n1 + msPerDay"
    and d3: "setUTCHours0 n3 = setUTCHours0 n1 + 2 * msPerDay"
    and b: "setUTCHours0 n1 - msPerDay \<notin> set (completedDates uc)"
    and c1: "setUTCHours0 n1 \<notin> set (completedDates uc)"
    and c2: "setUTCHours0 n1 + msPerDay \<notin> set (completedDates uc)"
    and c3: "setUTCHours0 n1 + 2 * msPerDay \<notin> set (completedDates uc)"
  shows "\<exists>r1 r2 r3. completeRecord n1 p1 uc = Inr r1 \<and> currentStreakCount r1 = 1
           \<and> completeRecord n2 p2 r1 = Inr r2 \<and> currentStreakCount r2 = 2
           \<and> completeRecord n3 p3 r2 = Inr r3 \<and> currentStreakCount r3 = 3"
proof -
  let ?D = "setUTCHours0 n1"
  let ?r1 = "applyCompletion ?D p1 uc"
  let ?r2 = "applyCompletion (?D + msPerDay) p2 ?r1"
  let ?r3 = "applyCompletion (?D + 2 * msPerDay) p3 ?r2"
  have s1: "completeRecord n1 p1 uc = Inr ?r1"
    using c1 by (simp add: completeRecord_cases)
  have k1: "currentStreakCount ?r1 = 1"
    using b by (simp add: applyCompletion_streak)
  have s2: "completeRecord n2 p2 ?r1 = Inr ?r2"
    using c2 d2 msPerDay_pos by (simp add: completeRecord_cases applyCompletion_fields)
  have k2: "currentStreakCount ?r2 = 2"
    using k1 by (simp add: applyCompletion_streak applyCompletion_fields)
  have s3: "completeRecord n3 p3 ?r2 = Inr ?r3"
    using c3 d3 msPerDay_pos by (simp add: completeRecord_cases applyCompletion_fields)
  have k3: "currentStreakCount ?r3 = 3"
    using k2 by (simp add: applyCompletion_streak applyCompletion_fields)
  from s1 k1 s2 k2 s3 k3 show ?thesis by blast
qed

lemma gap_day:
  assumes d3: "setUTCHours0 n3 = setUTCHours0 n1 + 2 * msPerDay"
    and c1: "setUTCHours0 n1 \<notin> set (completedDates uc)"
    and c2: "setUTCHours0 n1 + msPerDay \<notin> set (completedDates uc)"
    and c3: "setUTCHours0 n1 + 2 * msPerDay \<notin> set (completedDates uc)"
  shows "\<exists>r1 r3. completeRecord n1 p1 uc = Inr r1
           \<and> completeRecord n3 p3 r1 = Inr r3 \<and> currentStreakCount r3 = 1"
proof -
  let ?D = "setUTCHours0 n1"
  let ?r1 = "applyCompletion ?D p1 uc"
  let ?r3 = "applyCompletion (?D + 2 * msPerDay) p3 ?r1"
  have s1: "completeRecord n1 p1 uc = Inr ?r1"
    using c1 by (simp add: completeRecord_cases)
  have s3: "completeRecord n3 p3 ?r1 = Inr ?r3"
    using c3 d3 msPerDay_pos by (simp add: completeRecord_cases applyCompletion_fields)
  have e: "?D + 2 * msPerDay - msPerDay = ?D + msPerDay" by simp
  have n: "?D + msPerDay \<notin> set (completedDates ?r1)"
    using c2 msPerDay_pos by (simp add: applyCompletion_fields)
  have k3: "currentStreakCount ?r3 = 1"
    by (simp only: applyCompletion_streak e n if_False)
  from s1 s3 k3 show ?thesis by blast
qed

text \<open>
  Claim C2. After a successful completion on day D the current streak is the previous one
  plus 1 when day D - 1 is in completedDates and 1 otherwise; the maximal streak becomes the
  maximum of its previous value and the new current streak, so it never decreases. The
  response and the stored record carry these values. Completions on three consecutive days
  that follow a day without completion give the streaks 1, 2, 3; after completions on days
  D and D + 2 with none on D + 1 the streak is 1.
\<close>

theorem streak_update:
  "(completeRecord now p uc = Inr uc' \<longrightarrow>
      currentStreakCount uc'
        = (if setUTCHours0 now - msPerDay \<in> set (completedDates uc)
           then currentStreakCount uc + 1 else 1)
      \<and> maxStreakCount uc' = max (maxStreakCount uc) (currentStreakCount uc')
      \<and> maxStreakCount uc \<le> maxStreakCount uc')
   \<and> (findUserChallenge uid cid st = Some uc \<longrightarrow>
       completeChallenge now rateNow uid cid (Some filename) st = (st', Inr resp) \<longrightarrow>
         resp_currentStreakCount resp
           = (if setUTCHours0 now - msPerDay \<in> set (completedDates uc)
              then currentStreakCount uc + 1 else 1)
         \<and> resp_maxStreakCount resp = max (maxStreakCount uc) (resp_currentStreakCount resp)
         \<and> (\<exists>uc'. findUserChallenge uid cid st' = Some uc'
               \<and> currentStreakCount uc' = resp_currentStreakCount resp
               \<and> maxStreakCount uc' = resp_maxStreakCount resp))
   \<and> (setUTCHours0 dayB = setUTCHours0 dayA + msPerDay \<longrightarrow>
       setUTCHours0 dayC = setUTCHours0 dayA + 2 * msPerDay \<longrightarrow>
       setUTCHours0 dayA - msPerDay \<notin> set (completedDates uc) \<longrightarrow>
       setUTCHours0 dayA \<notin> set (completedDates uc) \<longrightarrow>
       setUTCHours0 dayA + msPerDay \<notin> set (completedDates uc) \<longrightarrow>
       setUTCHours0 dayA + 2 * msPerDay \<notin> set (completedDates uc) \<longrightarrow>
         (\<exists>r1 r2 r3. completeRecord dayA photoA uc = Inr r1 \<and> currentStreakCount r1 = 1
            \<and> completeRecord dayB photoB r1 = Inr r2 \<and> currentStreakCount r2 = 2
            \<and> completeRecord dayC photoC r2 = Inr r3 \<and> currentStreakCount r3 = 3))
   \<and> (setUTCHours0 dayC = setUTCHours0 dayA + 2 * msPerDay \<longrightarrow>
       setUTCHours0 dayA \<notin> set (completedDates uc) \<longrightarrow>
       setUTCHours0 dayA + msPerDay \<notin> set (completedDates uc) \<longrightarrow>
       setUTCHours0 dayA + 2 * msPerDay \<notin> set (completedDates uc) \<longrightarrow>
         (\<exists>r1 r3. completeRecord dayA photoA uc = Inr r1
            \<and> completeRecord dayC photoC r1 = Inr r3 \<and> currentStreakCount r3 = 1))"
proof -
  have a: "currentStreakCount uc'
        = (if setUTCHours0 now - msPerDay \<in> set (completedDates uc)
           then currentStreakCount uc + 1 else 1)
      \<and> maxStreakCount uc' = max (maxStreakCount uc) (currentStreakCount uc')
      \<and> maxStreakCount uc \<le> maxStreakCount uc'"
    if "completeRecord now p uc = Inr uc'" for p uc'
    using completeRecord_Inr [OF that] by (simp add: applyCompletion_streak)
  have b: "resp_currentStreakCount resp
           = (if setUTCHours0 now - msPerDay \<in> set (completedDates uc)
              then currentStreakCount uc + 1 else 1)
         \<and> resp_maxStreakCount resp = max (maxStreakCount uc) (resp_currentStreakCount resp)
         \<and> (\<exists>uc'. findUserChallenge uid cid st' = Some uc'
               \<and> currentStreakCount uc' = resp_currentStreakCount resp
               \<and> maxStreakCount uc' = resp_maxStreakCount resp)"
    if f: "findUserChallenge uid cid st = Some uc"
      and r: "completeChallenge now rateNow uid cid (Some filename) st = (st', Inr resp)"
  proof -
    let ?url = "''/uploads/completions/'' @ filename"
    from r f obtain uc1 where c: "completeRecord now ?url uc = Inr uc1"
      by (cases "completeRecord now ?url uc") (auto simp: completeChallenge_def)
    from completeChallenge_accepted [OF f c, of rateNow] r
    have "findUserChallenge uid cid st' = Some uc1
          \<and> resp_currentStreakCount resp = currentStreakCount uc1
          \<and> resp_maxStreakCount resp = maxStreakCount uc1"
      by auto
    with a [OF c] show ?thesis by simp
  qed
  from a [of p uc'] b three_consecutive_days [of dayB dayA dayC uc photoA photoB photoC]
    gap_day [of dayC dayA uc photoA photoC]
  show ?thesis by blast
qed

text \<open>
  The scenario of daily completions on days 0 to 3, none on day 4 and one on day 5: four
  completions give streak 4 and score 40; the fifth resets the streak to 1 and keeps the
  maximum at 4.
\<close>

lemma streak_scenario:
  "map_sum id (\<lambda>r. (totalCompletions r, currentStreakCount r, maxStreakCount r, score r))
     (completeAll [(0, ''a''), (86400000, ''b''), (172800000, ''c''), (259200000, ''d'')]
        (newUserChallenge ''u1'' ''c1'' 0))
     = Inr (4, 4, 4, 40)"
  "map_sum id (\<lambda>r. (totalCompletions r, currentStreakCount r, maxStreakCount r, score r))
     (completeAll [(0, ''a''), (86400000, ''b''), (172800000, ''c''), (259200000, ''d''),
                   (432000000, ''e'')]
        (newUserChallenge ''u1'' ''c1'' 0))
     = Inr (5, 1, 4, 50)"
  by code_simp+

theorem streak_update_witness:
  "completeRecord dayNow ''p'' dayRecord = Inr (applyCompletion 777600000 ''p'' dayRecord)
   \<and> currentStreakCount (applyCompletion 777600000 ''p'' dayRecord) = 10
   \<and> maxStreakCount (applyCompletion 777600000 ''p'' dayRecord) = 10
   \<and> (\<exists>r1 r2 r3.
         completeRecord 0 ''a'' (newUserChallenge ''u1'' ''c1'' 0) = Inr r1
         \<and> currentStreakCount r1 = 1
         \<and> completeRecord (msPerDay + 5) ''b'' r1 = Inr r2 \<and> currentStreakCount r2 = 2
         \<and> completeRecord (2 * msPerDay) ''c'' r2 = Inr r3 \<and> currentStreakCount r3 = 3)
   \<and> (\<exists>r1 r3.
         completeRecord 0 ''a'' (newUserChallenge ''u1'' ''c1'' 0) = Inr r1
         \<and> completeRecord (2 * msPerDay) ''c'' r1 = Inr r3 \<and> currentStreakCount r3 = 1)"
proof -
  let ?new = "newUserChallenge ''u1'' ''c1'' 0"
  have c: "completeRecord dayNow ''p'' dayRecord = Inr (applyCompletion 777600000 ''p'' dayRecord)"
    by (simp add: completeRecord_def completedOn_def day_today dayRecord_def)
  have y: "setUTCHours0 dayNow - msPerDay \<in> set (completedDates dayRecord)"
    by (simp add: day_today dayRecord_def msPerDay_def)
  have k: "currentStreakCount dayRecord = 9" "maxStreakCount dayRecord = 9"
    by (simp_all add: dayRecord_def)
  have t: "setUTCHours0 0 = 0" "setUTCHours0 (msPerDay + 5) = msPerDay"
    "setUTCHours0 (2 * msPerDay) = 2 * msPerDay"
    by (simp_all add: setUTCHours0_def msPerDay_def)
  have e: "completedDates ?new = []"
    by (simp add: newUserChallenge_def)
  from streak_update
         [of dayNow "''p''" dayRecord "applyCompletion 777600000 ''p'' dayRecord" "''u1''"
            "''c1''" dayStore dayNow "''p.jpg''" dayStoreAfter dayResponse]
    c y k
  have p1: "currentStreakCount (applyCompletion 777600000 ''p'' dayRecord) = 10
            \<and> maxStreakCount (applyCompletion 777600000 ''p'' dayRecord) = 10"
    by simp
  from streak_update
         [where uc = ?new and dayA = 0 and dayB = "msPerDay + 5" and dayC = "2 * msPerDay"
            and photoA = "''a''" and photoB = "''b''" and photoC = "''c''"]
    t e
  have p2: "(\<exists>r1 r2 r3.
         completeRecord 0 ''a'' ?new = Inr r1
         \<and> currentStreakCount r1 = 1
         \<and> completeRecord (msPerDay + 5) ''b'' r1 = Inr r2 \<and> currentStreakCount r2 = 2
         \<and> completeRecord (2 * msPerDay) ''c'' r2 = Inr r3 \<and> currentStreakCount r3 = 3)
      \<and> (\<exists>r1 r3.
         completeRecord 0 ''a'' ?new = Inr r1
         \<and> completeRecord (2 * msPerDay) ''c'' r1 = Inr r3 \<and> currentStreakCount r3 = 1)"
    by simp
  from c p1 p2 show ?thesis by blast
qed

section \<open>Properties of the trust score\<close>

lemma completeChallenge_user:
  assumes f: "findUserChallenge uid cid st = Some uc"
    and u: "findUserById uid st = Some user"
    and r: "completeRecord now (''/uploads/completions/'' @ filename) uc = Inr uc'"
  shows "\<exists>st' resp user'.
           completeChallenge now rateNow uid cid (Some filename) st = (st', Inr resp)
           \<and> resp_currentStreakCount resp = currentStreakCount uc'
           \<and> resp_trustScoreIncrease resp = trustScoreIncreaseFor (currentStreakCount uc')
           \<and> findUserById uid st' = Some user'
           \<and> trustScore user'
               = min 100 (trustScore user + trustScoreIncreaseFor (currentStreakCount uc'))
           \<and> earnedBadges user' = earnedBadges user
           \<and> grade user' = gradeForBadgeCount (length (earnedBadges user))
           \<and> resp_trustScore resp = trustScore user'
           \<and> resp_currentGrade resp = grade user'
           \<and> resp_totalBadges resp = length (earnedBadges user)"
proof -
  let ?inc = "trustScoreIncreaseFor (currentStreakCount uc')"
  let ?u2 = "user\<lparr>trustScore := min 100 (trustScore user + ?inc)\<rparr>"
  let ?u3 = "?u2\<lparr>grade := gradeForBadgeCount (length (earnedBadges ?u2))\<rparr>"
  let ?st1 = "saveUserChallenge uc' st"
  let ?st2 = "saveUser ?u2 ?st1"
  let ?st4 = "fst (updateGrade uid ?st2)"
  let ?st5 = "updateCompletionRate rateNow cid ?st4"
  from u have k: "user_id user = uid"
    using find_Some_holds [of "\<lambda>x. user_id x = uid" "users st" user]
    by (simp add: findUserById_def)
  have u1: "findUserById uid ?st1 = Some user"
    using u by (simp add: findUserById_def)
  then have t: "applyTrustScore uid uc' ?st1 = (?st2, ?inc)"
    by (simp add: applyTrustScore_def Let_def)
  have u2: "findUserById uid ?st2 = Some ?u2"
    using findUserById_saveUser [OF u1, of ?u2] k by simp
  have u4: "findUserById uid ?st4 = Some ?u3"
    using updateGrade_user [OF u2] .
  have u5: "findUserById uid ?st5 = Some ?u3"
    using u4 by (simp add: findUserById_def)
  have "completeChallenge now rateNow uid cid (Some filename) st
          = (?st5,
             Inr \<lparr>resp_score = score uc',
                  resp_totalCompletions = totalCompletions uc',
                  resp_currentStreakCount = currentStreakCount uc',
                  resp_maxStreakCount = maxStreakCount uc',
                  resp_completedDate = setUTCHours0 now,
                  resp_photoUrl = ''/uploads/completions/'' @ filename,
                  resp_trustScore = trustScore ?u3,
                  resp_trustScoreIncrease = ?inc,
                  resp_currentGrade = grade ?u3,
                  resp_totalBadges = length (earnedBadges ?u3)\<rparr>)"
    using f r t u5 by (simp add: completeChallenge_def Let_def)
  with u5 show ?thesis by simp
qed

text \<open>
  Claim C5. On a successful completion by an existing user the increase of the trust score
  is 1 plus the bonus of the streak after the update: 2 from a streak of 10, else 1.5 from 7,
  else 1 from 3, else 0. The stored and reported trust score is the minimum of 100 and the
  old score plus the increase, hence at most 100; from 99 an increase of 3 gives 100.
\<close>

theorem trust_score_increase:
  assumes f: "findUserChallenge uid cid st = Some uc"
    and u: "findUserById uid st = Some user"
    and c: "completeChallenge now rateNow uid cid (Some filename) st = (st', Inr resp)"
  shows "resp_trustScoreIncrease resp
           = 1 + (if resp_currentStreakCount resp \<ge> 10 then 2
                  else if resp_currentStreakCount resp \<ge> 7 then 3 / 2
                  else if resp_currentStreakCount resp \<ge> 3 then 1
                  else 0)
         \<and> (\<exists>uc'. findUserChallenge uid cid st' = Some uc'
                \<and> currentStreakCount uc' = resp_currentStreakCount resp)
         \<and> (\<exists>user'. findUserById uid st' = Some user'
                \<and> trustScore user' = min 100 (trustScore user + resp_trustScoreIncrease resp)
                \<and> resp_trustScore resp = trustScore user'
                \<and> trustScore user' \<le> 100)
         \<and> (trustScore user = 99 \<longrightarrow> resp_trustScoreIncrease resp = 3 \<longrightarrow>
                resp_trustScore resp = 100)"
proof -
  let ?url = "''/uploads/completions/'' @ filename"
  from c f obtain uc1 where r: "completeRecord now ?url uc = Inr uc1"
    by (cases "completeRecord now ?url uc") (auto simp: completeChallenge_def)
  from completeChallenge_user [OF f u r, of rateNow] c
  obtain user' where
    s: "resp_currentStreakCount resp = currentStreakCount uc1"
    and i: "resp_trustScoreIncrease resp = trustScoreIncreaseFor (currentStreakCount uc1)"
    and g: "findUserById uid st' = Some user'"
    and t: "trustScore user'
              = min 100 (trustScore user + trustScoreIncreaseFor (currentStreakCount uc1))"
    and o: "resp_trustScore resp = trustScore user'"
    by auto
  from completeChallenge_accepted [OF f r, of rateNow] c
  have a: "findUserChallenge uid cid st' = Some uc1" by auto
  have p1: "resp_trustScoreIncrease resp
           = 1 + (if resp_currentStreakCount resp \<ge> 10 then 2
                  else if resp_currentStreakCount resp \<ge> 7 then 3 / 2
                  else if resp_currentStreakCount resp \<ge> 3 then 1
                  else 0)"
    using i s by (simp add: trustScoreIncreaseFor_def)
  have p2: "\<exists>uc'. findUserChallenge uid cid st' = Some uc'
                \<and> currentStreakCount uc' = resp_currentStreakCount resp"
    using a s by simp
  have p3: "\<exists>user'. findUserById uid st' = Some user'
                \<and> trustScore user' = min 100 (trustScore user + resp_trustScoreIncrease resp)
                \<and> resp_trustScore resp = trustScore user'
                \<and> trustScore user' \<le> 100"
    using g t o i by simp
  have p4: "trustScore user = 99 \<longrightarrow> resp_trustScoreIncrease resp = 3 \<longrightarrow>
                resp_trustScore resp = 100"
    using t o i by simp
  from p1 p2 p3 p4 show ?thesis by blast
qed

theorem trust_score_increase_witness:
  "findUserChallenge ''u1'' ''c1'' dayStore = Some dayRecord
   \<and> findUserById ''u1'' dayStore = Some dayUser
   \<and> completeChallenge dayNow dayNow ''u1'' ''c1'' (Some ''p.jpg'') dayStore
       = (dayStoreAfter, Inr dayResponse)
   \<and> trustScore dayUser = 99
   \<and> resp_currentStreakCount dayResponse = 10
   \<and> resp_trustScoreIncrease dayResponse = 3
   \<and> resp_trustScore dayResponse = 100
   \<and> findUserById ''u1'' dayStoreAfter = Some (dayUser\<lparr>trustScore := 100\<rparr>)"
proof -
  have s: "resp_currentStreakCount dayResponse = 10" "trustScore dayUser = 99"
    by (simp_all add: dayResponse_def dayUser_def)
  have a: "findUserById ''u1'' dayStoreAfter = Some (dayUser\<lparr>trustScore := 100\<rparr>)"
    by (simp add: findUserById_def dayStoreAfter_def dayUser_def)
  from trust_score_increase [OF day_lookup(1) day_lookup(2) day_completion] s a day_lookup
    day_completion
  show ?thesis by simp
qed

section \<open>Properties of the badge evaluation engine\<close>

text \<open>
  What a run of the engine does when its save is accepted: with a threshold of at least 1
  and a target that is not empty, both of which the validation of the catalog demands, the
  condition of the code is the comparison of the matching aggregate with the threshold;
  over a catalog of distinct badges the loop appends exactly the badges that are not yet
  earned and whose condition is met, in catalog order; and no run, accepted or not, removes
  an earned badge or makes a list without repetition repeat a badge.
\<close>

lemma conditionMet_threshold:
  assumes "1 \<le> cvalue (condition badge)" and "categoryTarget (condition badge) \<noteq> Some []"
  shows "conditionMet s badge \<longleftrightarrow> cvalue (condition badge) \<le> matchingAggregate s badge"
  using assms
  by (auto simp: conditionMet_def matchingAggregate_def Let_def
           split: conditionType.splits option.splits)

lemma awardBadge_earned:
  "earnedBadges (awardBadge b user) = earnedBadges user @ [b]"
  by (simp add: awardBadge_def Let_def)

lemma awardLoop_earned:
  "distinct (map badge_id catalog)
     \<Longrightarrow> earnedBadges (awardLoop s catalog user)
         = earnedBadges user
           @ map badge_id
               (filter (\<lambda>b. badge_id b \<notin> set (earnedBadges user) \<and> conditionMet s b) catalog)"
proof (induction catalog arbitrary: user)
  case Nil
  then show ?case by simp
next
  case (Cons b catalog)
  from Cons.prems have d: "distinct (map badge_id catalog)"
    and n: "badge_id b \<notin> badge_id ` set catalog"
    by simp_all
  show ?case
  proof (cases "badge_id b \<notin> set (earnedBadges user) \<and> conditionMet s b")
    case True
    have "filter (\<lambda>x. badge_id x \<notin> set (earnedBadges (awardBadge (badge_id b) user))
                        \<and> conditionMet s x) catalog
            = filter (\<lambda>x. badge_id x \<notin> set (earnedBadges user) \<and> conditionMet s x) catalog"
    proof (intro filter_cong refl)
      fix x assume "x \<in> set catalog"
      with n have "badge_id x \<noteq> badge_id b" by (metis imageI)
      then show "(badge_id x \<notin> set (earnedBadges (awardBadge (badge_id b) user))
                   \<and> conditionMet s x)
                 = (badge_id x \<notin> set (earnedBadges user) \<and> conditionMet s x)"
        by (simp add: awardBadge_earned)
    qed
    with True Cons.IH [OF d, of "awardBadge (badge_id b) user"] show ?thesis
      by (simp add: awardBadge_earned)
  next
    case False
    with Cons.IH [OF d, of user] show ?thesis by auto
  qed
qed

lemma awardLoop_user_id: "user_id (awardLoop s catalog user) = user_id user"
  by (induction catalog arbitrary: user) (auto simp: awardBadge_def Let_def)

lemma awardLoop_keeps:
  "\<exists>new. earnedBadges (awardLoop s catalog user) = earnedBadges user @ new
         \<and> (distinct (earnedBadges user) \<longrightarrow> distinct (earnedBadges user @ new))"
proof (induction catalog arbitrary: user)
  case Nil
  then show ?case by simp
next
  case (Cons b catalog)
  show ?case
  proof (cases "badge_id b \<notin> set (earnedBadges user) \<and> conditionMet s b")
    case True
    from Cons.IH [of "awardBadge (badge_id b) user"] obtain new where
      e: "earnedBadges (awardLoop s catalog (awardBadge (badge_id b) user))
            = earnedBadges (awardBadge (badge_id b) user) @ new"
      and d: "distinct (earnedBadges (awardBadge (badge_id b) user))
                \<longrightarrow> distinct (earnedBadges (awardBadge (badge_id b) user) @ new)"
      by blast
    from True e d show ?thesis
      by (intro exI [of _ "badge_id b # new"]) (simp add: awardBadge_earned)
  next
    case False
    with Cons.IH [of user] show ?thesis by auto
  qed
qed

lemma checkAndAwardBadges_accepted:
  assumes u: "findUserById uid st = Some user"
    and v: "userSchemaValid (awardLoop (userStats st (filter (\<lambda>uc. userId uc = uid)
                                                      (userChallenges st)))
                               (badgeCatalog st) user)"
  shows "findUserById uid (checkAndAwardBadges (RequestArg (Some uid)) st)
           = Some (awardLoop (userStats st (filter (\<lambda>uc. userId uc = uid) (userChallenges st)))
                     (badgeCatalog st) user)"
proof -
  from u have k: "user_id user = uid"
    using find_Some_holds [of "\<lambda>x. user_id x = uid" "users st" user]
    by (simp add: findUserById_def)
  show ?thesis
    using u v findUserById_saveUser [OF u] k
    by (simp add: checkAndAwardBadges_def Let_def awardLoop_user_id)
qed

lemma find_replaceFirst_other:
  "user_id y = rid \<Longrightarrow> rid \<noteq> uid
     \<Longrightarrow> find (\<lambda>x. user_id x = uid) (replaceFirst (\<lambda>x. user_id x = rid) y xs)
         = find (\<lambda>x. user_id x = uid) xs"
  by (induction xs) auto

lemma checkAndAwardBadges_monotone:
  assumes u: "findUserById uid st = Some user"
  shows "\<exists>user' new. findUserById uid (checkAndAwardBadges req st) = Some user'
           \<and> earnedBadges user' = earnedBadges user @ new
           \<and> (distinct (earnedBadges user) \<longrightarrow> distinct (earnedBadges user'))"
proof (cases "reqUserId req")
  case None
  with u show ?thesis by (simp add: checkAndAwardBadges_def)
next
  case (Some rid)
  show ?thesis
  proof (cases "findUserById rid st")
    case None
    with Some u show ?thesis by (simp add: checkAndAwardBadges_def)
  next
    case (Some ruser)
    let ?loop = "awardLoop (userStats st (filter (\<lambda>uc. userId uc = rid) (userChallenges st)))
                   (badgeCatalog st) ruser"
    show ?thesis
    proof (cases "userSchemaValid ?loop")
      case False
      with Some \<open>reqUserId req = Some rid\<close> u show ?thesis
        by (simp add: checkAndAwardBadges_def Let_def)
    next
      case True
      have c: "checkAndAwardBadges req st = saveUser ?loop st"
        using True Some \<open>reqUserId req = Some rid\<close>
        by (simp add: checkAndAwardBadges_def Let_def)
      show ?thesis
      proof (cases "rid = uid")
        case True
        with Some u have "ruser = user" by simp
        from Some have "user_id ruser = rid"
          using find_Some_holds [of "\<lambda>x. user_id x = rid" "users st" ruser]
          by (simp add: findUserById_def)
        with True have "findUserById uid (saveUser ?loop st) = Some ?loop"
          using findUserById_saveUser [OF u, of ?loop] by (simp add: awardLoop_user_id)
        moreover from awardLoop_keeps [where user = ruser and catalog = "badgeCatalog st"
            and s = "userStats st (filter (\<lambda>uc. userId uc = rid) (userChallenges st))"] obtain new where
          "earnedBadges ?loop = earnedBadges ruser @ new"
          "distinct (earnedBadges ruser) \<longrightarrow> distinct (earnedBadges ruser @ new)"
          by blast
        ultimately show ?thesis
          using c \<open>ruser = user\<close> by auto
      next
        case False
        from Some have "user_id ruser = rid"
          using find_Some_holds [of "\<lambda>x. user_id x = rid" "users st" ruser]
          by (simp add: findUserById_def)
        then have "findUserById uid (saveUser ?loop st) = findUserById uid st"
          using False
          by (simp add: findUserById_def saveUser_def awardLoop_user_id find_replaceFirst_other)
        with c u show ?thesis by simp
      qed
    qed
  qed
qed

text \<open>
  Claim C6. One run of the engine should append every catalog badge that is not yet earned
  and whose aggregate reaches the threshold. For the user below the second badge is not
  earned and its condition is met, the loop grants it and gives it the next order, 2, which
  the first badge already holds; the schema rejects the save for the repeated order and the
  run stores nothing.
\<close>

theorem badge_lost_on_order_clash:
  "findUserById ''u1'' clashStore = Some clashUser
   \<and> badge_id secondBadge \<notin> set (earnedBadges clashUser)
   \<and> conditionMet (userStats clashStore (userChallenges clashStore)) secondBadge
   \<and> awardLoop (userStats clashStore (userChallenges clashStore)) (badgeCatalog clashStore)
        clashUser
       = clashUser\<lparr>representativeBadges := [(''b1'', 2), (''b2'', 2)],
                    earnedBadges := [''b1'', ''b2'']\<rparr>
   \<and> checkAndAwardBadges (RequestArg (Some ''u1'')) clashStore = clashStore"
  by code_simp

text \<open>
  Claim C3. The response of a completion should count a badge whose threshold the
  completion reaches. Here the fifth completion reaches the threshold of the badge, the
  response reports no badge and the user has none afterwards, while the same engine, called
  through its route on the resulting store, grants the badge.
\<close>

theorem completion_skips_badge_award:
  "completeChallenge badgeNow badgeNow ''u1'' ''c1'' (Some ''p.jpg'') badgeStore
     = (badgeStoreAfter, Inr badgeResponse)
   \<and> resp_totalCompletions badgeResponse = 5
   \<and> resp_totalBadges badgeResponse = 0
   \<and> map earnedBadges (users badgeStoreAfter) = [[]]
   \<and> conditionMet (userStats badgeStoreAfter (userChallenges badgeStoreAfter)) fifthBadge
   \<and> map earnedBadges (users (checkAndAwardBadges (RequestArg (Some ''u1'')) badgeStoreAfter))
       = [[''b5'']]"
  by code_simp


section \<open>Properties of the double-precision arithmetic\<close>

text \<open>
  Rounding to a double moves a number by at most one part in \<open>2 ^ 53\<close>, keeps the order and
  leaves integers below \<open>2 ^ 53\<close> alone. For a percentage
  \<^verbatim>\<open>Math.round((a / b) * 100)\<close> this gives the bounds 0 and 100, and the exactly rounded
  value except where \<open>100 * a / b\<close> lies exactly halfway between two integers: there the
  result may be the lower one.
\<close>

lemma roundHalfEven_near: "\<bar>of_int (roundHalfEven y) - y\<bar> \<le> 1 / 2"
proof -
  have "of_int \<lfloor>y\<rfloor> \<le> y" "y < of_int \<lfloor>y\<rfloor> + 1" by linarith+
  then show ?thesis
    by (auto simp: roundHalfEven_def Let_def)
qed

lemma roundHalfEven_of_int: "roundHalfEven (of_int n) = n"
  by (simp add: roundHalfEven_def)

lemma roundHalfEven_mono:
  assumes "x \<le> y"
  shows "roundHalfEven x \<le> roundHalfEven y"
proof -
  have fx: "\<lfloor>x\<rfloor> \<le> roundHalfEven x" "roundHalfEven x \<le> \<lfloor>x\<rfloor> + 1"
    and fy: "\<lfloor>y\<rfloor> \<le> roundHalfEven y"
    by (auto simp: roundHalfEven_def Let_def)
  from assms have le: "\<lfloor>x\<rfloor> \<le> \<lfloor>y\<rfloor>" by (rule floor_mono)
  show ?thesis
  proof (cases "\<lfloor>x\<rfloor> = \<lfloor>y\<rfloor>")
    case True
    with assms have "x - of_int \<lfloor>x\<rfloor> \<le> y - of_int \<lfloor>y\<rfloor>" by simp
    with True show ?thesis
      by (auto simp: roundHalfEven_def Let_def)
  next
    case False
    with le have "\<lfloor>x\<rfloor> + 1 \<le> \<lfloor>y\<rfloor>" by simp
    with fx fy show ?thesis by linarith
  qed
qed

lemma binaryExponent_bounds:
  assumes "0 < x"
  shows "2 powi binaryExponent x \<le> x" and "x < 2 powi (binaryExponent x + 1)"
proof -
  have "2 powi binaryExponent x \<le> x \<and> x < 2 powi (binaryExponent x + 1)"
  proof (cases "1 \<le> x")
    case True
    let ?n = "\<lfloor>x\<rfloor>"
    let ?b = "bitlen ?n"
    from True have n: "0 < ?n" by simp
    from bitlen_bounds [OF n] have lo: "2 ^ nat (?b - 1) \<le> ?n" and hi: "?n < 2 ^ nat ?b"
      by simp_all
    from n have b: "1 \<le> ?b" using bitlen_eq_zero_iff [of ?n] bitlen_nonneg [of ?n] by linarith
    from lo have "(of_int (2 ^ nat (?b - 1)) :: rat) \<le> of_int ?n" by (simp only: of_int_le_iff)
    also have "\<dots> \<le> x" by simp
    finally have l: "(2 :: rat) ^ nat (?b - 1) \<le> x" by simp
    from hi have "?n + 1 \<le> 2 ^ nat ?b" by simp
    then have "(of_int (?n + 1) :: rat) \<le> of_int (2 ^ nat ?b)" by (simp only: of_int_le_iff)
    moreover have "x < of_int (?n + 1)" by simp linarith
    ultimately have h: "x < (2 :: rat) ^ nat ?b" by simp
    from b have "(2 :: rat) powi (?b - 1) = 2 ^ nat (?b - 1)" "(2 :: rat) powi ?b = 2 ^ nat ?b"
      by (simp_all add: power_int_def)
    with l h True show ?thesis by (simp add: binaryExponent_def)
  next
    case False
    let ?y = "1 / x"
    let ?m = "\<lceil>?y\<rceil> - 1"
    let ?b = "bitlen ?m"
    from False assms have y: "1 < ?y" by simp
    then have m: "0 < ?m" by simp
    have my: "of_int ?m < ?y" "?y \<le> of_int ?m + 1" by simp_all linarith+
    from bitlen_bounds [OF m] have lo: "2 ^ nat (?b - 1) \<le> ?m" and hi: "?m < 2 ^ nat ?b"
      by simp_all
    from m have b: "1 \<le> ?b" using bitlen_eq_zero_iff [of ?m] bitlen_nonneg [of ?m] by linarith
    from lo have "(of_int (2 ^ nat (?b - 1)) :: rat) \<le> of_int ?m" by (simp only: of_int_le_iff)
    with my have l: "(2 :: rat) ^ nat (?b - 1) < ?y" by simp
    from hi have c: "\<lceil>?y\<rceil> \<le> 2 ^ nat ?b" by simp
    have "?y \<le> of_int \<lceil>?y\<rceil>" by (rule le_of_int_ceiling)
    also have "\<dots> \<le> of_int (2 ^ nat ?b)" using c by (simp only: of_int_le_iff)
    also have "\<dots> = (2 :: rat) ^ nat ?b" by simp
    finally have h: "?y \<le> (2 :: rat) ^ nat ?b" .
    from h assms have h': "1 / (2 :: rat) ^ nat ?b \<le> x"
      by (simp add: field_simps)
    from l assms have l': "x < 1 / (2 :: rat) ^ nat (?b - 1)"
      by (simp add: field_simps)
    from b have "(2 :: rat) powi (- ?b) = 1 / 2 ^ nat ?b"
      "(2 :: rat) powi (- ?b + 1) = 1 / 2 ^ nat (?b - 1)"
      by (simp_all add: power_int_def field_simps nat_diff_distrib)
    with l' h' False show ?thesis by (simp add: binaryExponent_def)
  qed
  then show "2 powi binaryExponent x \<le> x" and "x < 2 powi (binaryExponent x + 1)"
    by simp_all
qed

lemma binaryExponent_mono:
  assumes "0 < x" "x \<le> y"
  shows "binaryExponent x \<le> binaryExponent y"
proof (rule ccontr)
  assume "\<not> binaryExponent x \<le> binaryExponent y"
  then have "binaryExponent y + 1 \<le> binaryExponent x" by simp
  then have "(2 :: rat) powi (binaryExponent y + 1) \<le> 2 powi binaryExponent x"
    by (intro power_int_increasing) simp_all
  also have "\<dots> \<le> x" using binaryExponent_bounds(1) [OF assms(1)] .
  also have "\<dots> \<le> y" by fact
  finally show False
    using binaryExponent_bounds(2) [of y] assms by simp
qed


lemma toDouble_pos_eq:
  "0 < x \<Longrightarrow> toDouble x
     = of_int (roundHalfEven (x / 2 powi (binaryExponent x - 52)))
         * 2 powi (binaryExponent x - 52)"
  by (simp add: toDouble_def Let_def)

lemma powi_succ: "(2 :: rat) powi (k + 1) = 2 powi k * 2"
  by (simp add: power_int_add)

lemma scaled_bounds:
  assumes "0 < x"
  shows "2 ^ 52 \<le> x / 2 powi (binaryExponent x - 52)"
    and "x / 2 powi (binaryExponent x - 52) < 2 ^ 53"
proof -
  let ?E = "binaryExponent x"
  let ?r = "x / 2 powi ?E"
  have p: "(0 :: rat) < 2 powi ?E" by simp
  have e: "(2 :: rat) powi (?E - 52) = 2 powi ?E / 2 ^ 52"
    by (simp add: power_int_diff)
  have q: "x / (2 powi ?E / 2 ^ 52) = ?r * 2 ^ 52"
    by (simp only: divide_divide_eq_right times_divide_eq_left)
  from binaryExponent_bounds(1) [OF assms] p have "1 \<le> ?r"
    by (simp add: le_divide_eq)
  then have "1 * 2 ^ 52 \<le> ?r * 2 ^ 52"
    by (intro mult_right_mono) simp_all
  then show "2 ^ 52 \<le> x / 2 powi (?E - 52)"
    by (simp only: e q mult_1)
  from binaryExponent_bounds(2) [OF assms] p have "?r < 2"
    by (simp only: powi_succ) (simp add: divide_less_eq)
  then have "?r * 2 ^ 52 < 2 * 2 ^ 52"
    by (intro mult_strict_right_mono) simp_all
  moreover have "(2 :: rat) * 2 ^ 52 = 2 ^ 53" by simp
  ultimately show "x / 2 powi (?E - 52) < 2 ^ 53"
    by (simp only: e q)
qed

lemma mantissa_bounds:
  assumes "0 < x"
  shows "2 ^ 52 \<le> roundHalfEven (x / 2 powi (binaryExponent x - 52))"
    and "roundHalfEven (x / 2 powi (binaryExponent x - 52)) \<le> 2 ^ 53"
proof -
  let ?s = "x / 2 powi (binaryExponent x - 52)"
  have "roundHalfEven (of_int (2 ^ 52)) \<le> roundHalfEven ?s"
    using scaled_bounds(1) [OF assms] by (intro roundHalfEven_mono) simp
  then show "2 ^ 52 \<le> roundHalfEven ?s"
    by (simp only: roundHalfEven_of_int)
  have "roundHalfEven ?s \<le> roundHalfEven (of_int (2 ^ 53))"
    using scaled_bounds(2) [OF assms] by (intro roundHalfEven_mono) simp
  then show "roundHalfEven ?s \<le> 2 ^ 53"
    by (simp only: roundHalfEven_of_int)
qed

lemma toDouble_pos: "0 < x \<Longrightarrow> 0 < toDouble x"
proof -
  assume x: "0 < x"
  from mantissa_bounds(1) [OF x]
  have "0 < roundHalfEven (x / 2 powi (binaryExponent x - 52))" by simp
  then show ?thesis
    by (simp add: toDouble_pos_eq [OF x])
qed

lemma toDouble_zero [simp]: "toDouble 0 = 0"
  by (simp add: toDouble_def)

lemma toDouble_error:
  assumes "0 < x"
  shows "\<bar>toDouble x - x\<bar> \<le> x / 2 ^ 53"
proof -
  let ?E = "binaryExponent x"
  let ?p = "(2 :: rat) powi (?E - 52)"
  let ?s = "x / ?p"
  let ?m = "of_int (roundHalfEven ?s) :: rat"
  have p: "0 < ?p" by simp
  have "toDouble x - x = (?m - ?s) * ?p"
    using p by (simp add: toDouble_pos_eq [OF assms] algebra_simps)
  then have "\<bar>toDouble x - x\<bar> = \<bar>?m - ?s\<bar> * ?p"
    using p by (simp add: abs_mult)
  also have "\<dots> \<le> (1 / 2) * ?p"
    using roundHalfEven_near [of ?s] p by (intro mult_right_mono) simp_all
  also have "\<dots> = 2 powi ?E / 2 ^ 53"
    by (simp add: power_int_diff)
  also have "\<dots> \<le> x / 2 ^ 53"
    using binaryExponent_bounds(1) [OF assms] by (simp add: divide_right_mono)
  finally show ?thesis .
qed

lemma toDouble_mono_pos:
  assumes x: "0 < x" and le: "x \<le> y"
  shows "toDouble x \<le> toDouble y"
proof -
  from x le have y: "0 < y" by simp
  let ?ex = "binaryExponent x - 52"
  let ?ey = "binaryExponent y - 52"
  let ?mx = "roundHalfEven (x / 2 powi ?ex)"
  let ?my = "roundHalfEven (y / 2 powi ?ey)"
  have dx: "toDouble x = of_int ?mx * 2 powi ?ex" by (rule toDouble_pos_eq [OF x])
  have dy: "toDouble y = of_int ?my * 2 powi ?ey" by (rule toDouble_pos_eq [OF y])
  from binaryExponent_mono [OF x le] have e: "?ex \<le> ?ey" by simp
  show ?thesis
  proof (cases "?ex = ?ey")
    case True
    have "x / 2 powi ?ex \<le> y / 2 powi ?ey"
      using le True by (simp add: divide_right_mono)
    then have "?mx \<le> ?my" by (rule roundHalfEven_mono)
    then have "(of_int ?mx :: rat) \<le> of_int ?my" by simp
    then have "of_int ?mx * (2 :: rat) powi ?ex \<le> of_int ?my * 2 powi ?ex"
      by (intro mult_right_mono) simp_all
    with True show ?thesis by (simp only: dx dy)
  next
    case False
    with e have s: "?ex + 1 \<le> ?ey" by simp
    have "(of_int ?mx :: rat) \<le> of_int (2 ^ 53)"
      using mantissa_bounds(2) [OF x] by (simp only: of_int_le_iff)
    then have "of_int ?mx * (2 :: rat) powi ?ex \<le> 2 ^ 53 * 2 powi ?ex"
      by (intro mult_right_mono) simp_all
    also have "\<dots> = 2 ^ 52 * ((2 :: rat) powi ?ex * 2)"
      by simp
    also have "\<dots> = 2 ^ 52 * (2 :: rat) powi (?ex + 1)"
      by (simp only: powi_succ)
    also have "\<dots> \<le> 2 ^ 52 * (2 :: rat) powi ?ey"
      using s by (intro mult_left_mono power_int_increasing) simp_all
    also have "\<dots> \<le> of_int ?my * (2 :: rat) powi ?ey"
    proof -
      have "(of_int (2 ^ 52) :: rat) \<le> of_int ?my"
        using mantissa_bounds(1) [OF y] by (simp only: of_int_le_iff)
      then show ?thesis by (intro mult_right_mono) simp_all
    qed
    finally show ?thesis by (simp only: dx dy)
  qed
qed

lemma toDouble_mono:
  assumes "0 \<le> x" "x \<le> y"
  shows "toDouble x \<le> toDouble y"
proof (cases "x = 0")
  case True
  show ?thesis
  proof (cases "y = 0")
    case True
    with \<open>x = 0\<close> show ?thesis by simp
  next
    case False
    with assms have "0 < y" by simp
    from toDouble_pos [OF this] True show ?thesis by simp
  qed
next
  case False
  with assms have "0 < x" by simp
  from toDouble_mono_pos [OF this assms(2)] show ?thesis .
qed

lemma toDouble_values:
  "toDouble 1 = 1" "toDouble 100 = 100" "toDouble (1 / 2) = 1 / 2"
  "1 / 200 \<le> toDouble (1 / 200)"
  by code_simp+


lemma ratio_bounds:
  fixes a b :: rat
  assumes "0 \<le> a" "a \<le> b" "0 < b"
  shows "0 \<le> mathRound (jsMul (jsDiv a b) 100)"
    and "mathRound (jsMul (jsDiv a b) 100) \<le> 100"
proof -
  let ?y = "jsDiv a b"
  from assms have q: "0 \<le> a / b" "a / b \<le> 1" by simp_all
  from toDouble_mono [OF q(1) q(2)] have y1: "?y \<le> 1"
    by (simp add: jsDiv_def toDouble_values)
  from toDouble_mono [of 0 "a / b"] q have y0: "0 \<le> ?y"
    by (simp add: jsDiv_def)
  from y0 y1 have z: "0 \<le> ?y * 100" "?y * 100 \<le> 100" by simp_all
  from toDouble_mono [OF z(1) z(2)] have h: "jsMul ?y 100 \<le> 100"
    by (simp add: jsMul_def toDouble_values)
  from toDouble_mono [of 0 "?y * 100"] z have l: "0 \<le> jsMul ?y 100"
    by (simp add: jsMul_def)
  from l show "0 \<le> mathRound (jsMul ?y 100)"
    by (simp add: mathRound_def)
  from h have "jsMul ?y 100 + 1 / 2 < 101" by simp
  then have "\<lfloor>jsMul ?y 100 + 1 / 2\<rfloor> < 101"
    by (simp add: floor_less_iff)
  then show "mathRound (jsMul ?y 100) \<le> 100"
    by (simp add: mathRound_def)
qed

lemma ratio_at_least_one:
  fixes a b :: rat
  assumes "0 < b" "b \<le> 200 * a"
  shows "1 \<le> mathRound (jsMul (jsDiv a b) 100)"
proof -
  let ?y = "jsDiv a b"
  from assms have q: "1 / 200 \<le> a / b" by (simp add: le_divide_eq)
  have "1 / 200 \<le> toDouble (1 / 200)" by (rule toDouble_values)
  also have "\<dots> \<le> ?y"
    unfolding jsDiv_def using q by (intro toDouble_mono) simp_all
  finally have "1 / 2 \<le> ?y * 100" by simp
  then have "toDouble (1 / 2) \<le> jsMul ?y 100"
    unfolding jsMul_def by (intro toDouble_mono) simp_all
  then have "1 \<le> jsMul ?y 100 + 1 / 2"
    by (simp add: toDouble_values)
  then show ?thesis
    by (simp add: mathRound_def le_floor_iff)
qed

lemma ratio_error:
  fixes a b :: rat
  assumes "0 < a" "a \<le> b"
  shows "\<bar>jsMul (jsDiv a b) 100 - 100 * a / b\<bar> \<le> 200 / 2 ^ 53"
proof -
  let ?q = "a / b"
  let ?y = "jsDiv a b"
  let ?z = "?y * 100"
  from assms have q: "0 < ?q" "?q \<le> 1" by simp_all
  have y0: "0 < ?y" unfolding jsDiv_def by (rule toDouble_pos [OF q(1)])
  from toDouble_mono [of ?q 1] q have y1: "?y \<le> 1"
    by (simp add: jsDiv_def toDouble_values)
  have e1: "\<bar>?y - ?q\<bar> \<le> 1 / 2 ^ 53"
  proof -
    have "\<bar>?y - ?q\<bar> \<le> ?q / 2 ^ 53"
      unfolding jsDiv_def by (rule toDouble_error [OF q(1)])
    also have "\<dots> \<le> 1 / 2 ^ 53"
      using q(2) by (intro divide_right_mono) simp_all
    finally show ?thesis .
  qed
  have e2: "\<bar>jsMul ?y 100 - ?z\<bar> \<le> 100 / 2 ^ 53"
  proof -
    from y0 have "0 < ?z" by simp
    then have "\<bar>toDouble ?z - ?z\<bar> \<le> ?z / 2 ^ 53" by (rule toDouble_error)
    also have "\<dots> \<le> 100 / 2 ^ 53"
      using y1 by (intro divide_right_mono) simp_all
    finally show ?thesis by (simp only: jsMul_def)
  qed
  have s: "jsMul ?y 100 - 100 * a / b = (jsMul ?y 100 - ?z) + 100 * (?y - ?q)"
    by (simp add: algebra_simps)
  have m: "\<bar>100 * (?y - ?q)\<bar> = 100 * \<bar>?y - ?q\<bar>"
    by (simp only: abs_mult abs_numeral)
  have "\<bar>(jsMul ?y 100 - ?z) + 100 * (?y - ?q)\<bar>
          \<le> \<bar>jsMul ?y 100 - ?z\<bar> + \<bar>100 * (?y - ?q)\<bar>"
    by (rule abs_triangle_ineq)
  then have "\<bar>jsMul ?y 100 - 100 * a / b\<bar> \<le> \<bar>jsMul ?y 100 - ?z\<bar> + 100 * \<bar>?y - ?q\<bar>"
    by (simp only: s m)
  also have "\<dots> \<le> 100 / 2 ^ 53 + 100 * (1 / 2 ^ 53)"
    using e1 e2 by (intro add_mono mult_left_mono) simp_all
  also have "\<dots> = 200 / 2 ^ 53" by simp
  finally show ?thesis .
qed

lemma ratio_rounding:
  fixes k t :: int
  assumes k: "1 \<le> k" "k \<le> t" and t: "t < 2 ^ 44"
  defines "E \<equiv> 100 * of_int k / (of_int t :: rat)"
  defines "p \<equiv> mathRound (jsMul (jsDiv (of_int k) (of_int t)) 100)"
  shows "round E - 1 \<le> p" and "p \<le> round E"
    and "E - of_int \<lfloor>E\<rfloor> \<noteq> 1 / 2 \<Longrightarrow> p = round E"
proof -
  let ?y = "jsMul (jsDiv (of_int k) (of_int t)) 100"
  let ?n = "round E"
  define d :: rat where "d = 200 / 2 ^ 53"
  from k have tp: "(0 :: rat) < of_int t" by simp
  from ratio_error [of "of_int k" "of_int t"] k
  have "\<bar>?y - E\<bar> \<le> d" by (simp add: E_def d_def)
  then have hi_y: "?y \<le> E + d" and lo_y: "E - d \<le> ?y"
    by (simp_all add: abs_le_iff)
  have small: "d < 1 / (2 * of_int t)"
  proof -
    from t have "(of_int t :: rat) < of_int (2 ^ 44)" by (simp only: of_int_less_iff)
    then have "2 * (of_int t :: rat) * 200 < 2 ^ 53" by simp
    with tp show ?thesis by (simp add: d_def field_simps)
  qed
  have d1: "d < 1" by (simp add: d_def)
  have n: "of_int ?n \<le> E + 1 / 2" "E + 1 / 2 < of_int ?n + 1"
    unfolding round_def by linarith+
  have D: "E + 1 / 2 - of_int j = of_int (200 * k + t - 2 * t * j) / (2 * of_int t)" for j
    using tp by (simp add: E_def field_simps)
  have up: "E + 1 / 2 + d < of_int ?n + 1"
  proof -
    from n(2) have "E + 1 / 2 - of_int (?n + 1) < 0" by simp
    then have "of_int (200 * k + t - 2 * t * (?n + 1)) / (2 * of_int t) < (0 :: rat)"
      by (simp only: D)
    with tp have "(of_int (200 * k + t - 2 * t * (?n + 1)) :: rat) < 0"
      by (simp add: divide_less_0_iff)
    then have "200 * k + t - 2 * t * (?n + 1) < 0" by (simp only: of_int_less_0_iff)
    then have "200 * k + t - 2 * t * (?n + 1) \<le> - 1" by linarith
    then have "(of_int (200 * k + t - 2 * t * (?n + 1)) :: rat) \<le> of_int (- 1)"
      by (simp only: of_int_le_iff)
    then have "of_int (200 * k + t - 2 * t * (?n + 1)) / (2 * of_int t)
                 \<le> (of_int (- 1) :: rat) / (2 * of_int t)"
      using tp by (intro divide_right_mono) simp_all
    moreover have "(of_int (- 1) :: rat) / (2 * of_int t) = - (1 / (2 * of_int t))"
      by simp
    ultimately have "E + 1 / 2 - of_int (?n + 1) \<le> - (1 / (2 * of_int t))"
      by (simp only: D)
    with small show ?thesis by simp
  qed
  from hi_y up have "?y + 1 / 2 < of_int (?n + 1)" by simp
  then have "\<lfloor>?y + 1 / 2\<rfloor> < ?n + 1" by (simp only: floor_less_iff)
  then show hi: "p \<le> ?n" by (simp add: p_def mathRound_def)
  from d1 lo_y n(1) have "of_int (?n - 1) \<le> ?y + 1 / 2" by simp
  then have "?n - 1 \<le> \<lfloor>?y + 1 / 2\<rfloor>" by (simp only: le_floor_iff)
  then show "?n - 1 \<le> p" by (simp add: p_def mathRound_def)
  assume nt: "E - of_int \<lfloor>E\<rfloor> \<noteq> 1 / 2"
  have ne: "E + 1 / 2 \<noteq> of_int ?n"
  proof
    assume eq: "E + 1 / 2 = of_int ?n"
    then have "E = of_int (?n - 1) + 1 / 2" by simp
    then have "\<lfloor>E\<rfloor> = ?n - 1" by (simp add: floor_unique)
    with eq nt show False by simp
  qed
  with n(1) have "0 < E + 1 / 2 - of_int ?n" by simp
  then have "(0 :: rat) < of_int (200 * k + t - 2 * t * ?n) / (2 * of_int t)"
    by (simp only: D)
  with tp have "(0 :: rat) < of_int (200 * k + t - 2 * t * ?n)"
    by (simp add: zero_less_divide_iff)
  then have "0 < 200 * k + t - 2 * t * ?n" by (simp only: of_int_0_less_iff)
  then have "1 \<le> 200 * k + t - 2 * t * ?n" by linarith
  then have "(of_int 1 :: rat) \<le> of_int (200 * k + t - 2 * t * ?n)"
    by (simp only: of_int_le_iff)
  then have "(of_int 1 :: rat) / (2 * of_int t)
               \<le> of_int (200 * k + t - 2 * t * ?n) / (2 * of_int t)"
    using tp by (intro divide_right_mono) simp_all
  then have "1 / (2 * of_int t) \<le> E + 1 / 2 - of_int ?n"
    by (simp only: D of_int_1)
  with small lo_y have "of_int ?n \<le> ?y + 1 / 2" by simp
  then have "?n \<le> \<lfloor>?y + 1 / 2\<rfloor>" by (simp only: le_floor_iff)
  with hi show "p = ?n" by (simp add: p_def mathRound_def)
qed


section \<open>Properties of the completion-rate aggregator\<close>

text \<open>
  The computed rate is 0 without records; with records the possible completions are
  positive, and whenever the actual completions do not exceed them the rate lies between 0
  and 100 and is stored.
\<close>

lemma computedRate_no_records: "computedRate now [] = 0"
  by (simp add: computedRate_def)

lemma possibleDays_range: "1 \<le> possibleDays now uc \<and> possibleDays now uc \<le> 30"
  by (simp add: possibleDays_def)

lemma totalPossibleCompletions_pos:
  "ucs \<noteq> [] \<Longrightarrow> 0 < totalPossibleCompletions now ucs"
proof -
  assume n: "ucs \<noteq> []"
  have "int (length ucs) \<le> totalPossibleCompletions now ucs" for ucs
    unfolding totalPossibleCompletions_def
  proof (induction ucs)
    case Nil
    show ?case by simp
  next
    case (Cons a ucs)
    with possibleDays_range [of now a] show ?case by simp
  qed
  from this [of ucs] n show ?thesis by (cases ucs) auto
qed

lemma computedRate_within:
  assumes "0 \<le> totalActualCompletions ucs"
    and "totalActualCompletions ucs \<le> totalPossibleCompletions now ucs"
  shows "0 \<le> computedRate now ucs \<and> computedRate now ucs \<le> 100"
proof (cases "ucs = []")
  case True
  then show ?thesis by (simp add: computedRate_def)
next
  case False
  let ?a = "of_int (totalActualCompletions ucs) :: rat"
  let ?p = "of_int (totalPossibleCompletions now ucs) :: rat"
  from totalPossibleCompletions_pos [OF False, of now] have p: "0 < ?p" by simp
  from assms have a: "0 \<le> ?a" "?a \<le> ?p" by simp_all
  from ratio_bounds [OF a p] False totalPossibleCompletions_pos [OF False, of now]
  show ?thesis by (simp add: computedRate_def)
qed

lemma updateCompletionRate_stored:
  assumes c: "findChallengeById cid st = Some ch"
    and v: "0 \<le> computedRate now (challengeRecords st cid)"
           "computedRate now (challengeRecords st cid) \<le> 100"
  shows "findChallengeById cid (updateCompletionRate now cid st)
           = Some (ch\<lparr>completionRate := computedRate now (challengeRecords st cid)\<rparr>)"
proof -
  from c have k: "challenge_id ch = cid"
    using find_Some_holds [of "\<lambda>x. challenge_id x = cid" "challenges st" ch]
    by (simp add: findChallengeById_def)
  let ?ch = "ch\<lparr>completionRate := computedRate now (challengeRecords st cid)\<rparr>"
  have "find (\<lambda>x. challenge_id x = cid)
          (replaceFirst (\<lambda>x. challenge_id x = cid) ?ch (challenges st)) = Some ?ch"
    using find_replaceFirst_same [of "\<lambda>x. challenge_id x = cid" ?ch "challenges st" ch] c k
    by (simp add: findChallengeById_def)
  with c v k show ?thesis
    by (simp add: updateCompletionRate_def Let_def challengeSchemaValid_def challengeRecords_def
          findChallengeById_def saveChallenge_def)
qed


text \<open>
  Claim C4. The recomputed rate should lie between 0 and 100 and be stored. For the
  participant below two completions stand against one possible day: the computed rate is
  200, the schema rejects it, and the stored rate stays what it was.
\<close>

theorem completion_rate_out_of_range:
  "totalActualCompletions (challengeRecords lateStore ''c1'') = 2
   \<and> totalPossibleCompletions lateNow (challengeRecords lateStore ''c1'') = 1
   \<and> computedRate lateNow (challengeRecords lateStore ''c1'') = 200
   \<and> map completionRate (challenges lateStore) = [100]
   \<and> updateCompletionRate lateNow ''c1'' lateStore = lateStore"
  by code_simp


section \<open>Properties of the ranking service\<close>

lemma sortsBefore_sortField:
  "sortsBefore (sortField rankingType) a b \<longleftrightarrow>
     (if rankingType = ''completions''
      then totalCompletions a > totalCompletions b
           \<or> (totalCompletions a = totalCompletions b \<and> score a > score b)
      else if rankingType = ''streak''
      then maxStreakCount a > maxStreakCount b
           \<or> (maxStreakCount a = maxStreakCount b
               \<and> currentStreakCount a > currentStreakCount b)
           \<or> (maxStreakCount a = maxStreakCount b
               \<and> currentStreakCount a = currentStreakCount b \<and> score a > score b)
      else score a > score b
           \<or> (score a = score b \<and> totalCompletions a > totalCompletions b))"
  by (auto simp: sortField_def)

lemma matchCondition_sortsBefore:
  "matchCondition rankingType my uc \<longleftrightarrow> sortsBefore (sortField rankingType) uc my"
  unfolding sortsBefore_sortField matchCondition_def by auto

lemma sortsBefore_irrefl: "\<not> sortsBefore spec a a"
  by (induction spec) auto

lemma findUserChallenge_member:
  "findUserChallenge uid cid st = Some my \<Longrightarrow> my \<in> set (challengeRecords st cid)"
  using find_Some_holds [of "\<lambda>uc. userId uc = uid \<and> challengeId uc = cid" "userChallenges st" my]
  by (simp add: findUserChallenge_def challengeRecords_def)

lemma higher_count_less:
  assumes "findUserChallenge uid cid st = Some my"
  shows "length (filter (matchCondition rankingType my) (challengeRecords st cid))
           < length (challengeRecords st cid)"
proof -
  have "\<not> matchCondition rankingType my my"
    by (simp add: matchCondition_sortsBefore sortsBefore_irrefl)
  with findUserChallenge_member [OF assms] show ?thesis
    by (intro length_filter_less)
qed

lemma getMyChallengeRank_Some:
  assumes v: "isValid cid" and f: "findUserChallenge uid cid st = Some my"
  shows "getMyChallengeRank isValid st uid cid rankingType
           = Inr \<lparr>resp_rank = int (length (filter (matchCondition rankingType my)
                                               (challengeRecords st cid))) + 1,
                  resp_totalParticipants = int (length (challengeRecords st cid)),
                  resp_percentile =
                    mathRound (jsMul
                      (jsDiv (of_int (int (length (challengeRecords st cid))
                                       - (int (length (filter (matchCondition rankingType my)
                                                         (challengeRecords st cid))) + 1)
                                       + 1))
                             (of_int (int (length (challengeRecords st cid))))) 100),
                  resp_value = myValue rankingType my\<rparr>"
  using v f by (simp add: getMyChallengeRank_def Let_def)

lemma rank_lookup:
  "findUserChallenge ''uC'' ''c1'' rankStore = Some rankC"
  "findUserChallenge ''uB'' ''c1'' rankStore = Some rankB"
  by (simp_all add: findUserChallenge_def rankStore_def rankA_def rankB_def rankC_def
        newUserChallenge_def)

lemma rank_responses:
  "getMyChallengeRank anyObjectId rankStore ''uC'' ''c1'' ''streak'' = Inr rankResponseC"
  "getMyChallengeRank anyObjectId rankStore ''uB'' ''c1'' ''streak'' = Inr rankResponseB"
  by code_simp+

lemma forty_lookup: "findUserChallenge ''me'' ''c1'' fortyStore = Some middleRecord"
  by (simp add: findUserChallenge_def fortyStore_def middleRecord_def newUserChallenge_def)

lemma forty_response:
  "getMyChallengeRank anyObjectId fortyStore ''me'' ''c1'' ''score''
     = Inr \<lparr>resp_rank = 18, resp_totalParticipants = 40, resp_percentile = 57,
            resp_value = 10\<rparr>"
proof -
  have v: "anyObjectId ''c1''" by (simp add: anyObjectId_def)
  have c: "challengeRecords fortyStore ''c1''
             = middleRecord # map aheadRecord [0..<17] @ map behindRecord [0..<22]"
    by (simp add: challengeRecords_def fortyStore_def middleRecord_def newUserChallenge_def
          aheadRecord_def behindRecord_def filter_map o_def)
  have m: "filter (matchCondition ''score'' middleRecord)
             (middleRecord # map aheadRecord [0..<17] @ map behindRecord [0..<22])
             = map aheadRecord [0..<17]"
    by (simp add: matchCondition_def middleRecord_def newUserChallenge_def aheadRecord_def
          behindRecord_def filter_map o_def)
  have p: "mathRound (jsMul (jsDiv 23 40) 100) = 57"
    by code_simp
  show ?thesis
    unfolding getMyChallengeRank_Some
                [of anyObjectId "''c1''" "''me''" fortyStore middleRecord, OF v forty_lookup] c m
    by (simp add: p myValue_def middleRecord_def)
qed

text \<open>
  Claim C8, as stated, fails in its percentile: the code rounds the double
  \<^verbatim>\<open>((totalParticipants - myRank + 1) / totalParticipants) * 100\<close>, not the exact value of
  100 * (totalParticipants - rank + 1) / totalParticipants. For the caller ranked 18th of 40
  the exact value is 57.5, which rounds to 58; the double quotient 23 / 40 times 100 lies
  just below 57.5, and the query answers 57.
\<close>

theorem my_rank_percentile_tie:
  "getMyChallengeRank anyObjectId fortyStore ''me'' ''c1'' ''score''
     = Inr \<lparr>resp_rank = 18, resp_totalParticipants = 40, resp_percentile = 57,
            resp_value = 10\<rparr>
   \<and> round (100 * of_int (40 - 18 + 1) / (of_int 40 :: rat)) = 58"
proof -
  have "round (100 * of_int (40 - 18 + 1) / (of_int 40 :: rat)) = 58"
    by (simp add: round_def floor_eq_iff)
  with forty_response show ?thesis by simp
qed

text \<open>
  Claim C8, amended. For a user with a progress record in the challenge, the my-rank query
  answers with rank = 1 + the number of the challenge's records that come strictly before
  the user's record in the order of the per-challenge ranking for the metric: greater on the
  primary key, or equal there and greater on the first tie-break, or equal on both and
  greater on the second tie-break, where the metric has one. The percentile is
  \<^verbatim>\<open>Math.round\<close> of the double-precision value of
  ((totalParticipants - rank + 1) / totalParticipants) * 100; with fewer than \<open>2 ^ 44\<close>
  participants it is round(100 * (totalParticipants - rank + 1) / totalParticipants) or one
  less, and it is the former whenever the exact value is not halfway between two integers.
\<close>

theorem my_rank_formula:
  assumes v: "isValid cid" and f: "findUserChallenge uid cid st = Some my"
  shows "\<exists>resp. getMyChallengeRank isValid st uid cid rankingType = Inr resp
           \<and> resp_rank resp
               = 1 + int (length (filter (\<lambda>uc. sortsBefore (sortField rankingType) uc my)
                                    (challengeRecords st cid)))
           \<and> resp_totalParticipants resp = int (length (challengeRecords st cid))
           \<and> resp_percentile resp
               = mathRound (jsMul (jsDiv (of_int (resp_totalParticipants resp
                                                   - resp_rank resp + 1))
                                         (of_int (resp_totalParticipants resp))) 100)
           \<and> (resp_totalParticipants resp < 2 ^ 44 \<longrightarrow>
                (let exact = 100 * of_int (resp_totalParticipants resp - resp_rank resp + 1)
                               / (of_int (resp_totalParticipants resp) :: rat)
                 in round exact - 1 \<le> resp_percentile resp
                    \<and> resp_percentile resp \<le> round exact
                    \<and> (exact - of_int \<lfloor>exact\<rfloor> \<noteq> 1 / 2 \<longrightarrow>
                          resp_percentile resp = round exact)))
           \<and> (\<forall>uc. sortsBefore (sortField rankingType) uc my \<longleftrightarrow>
                  (if rankingType = ''completions''
                   then totalCompletions uc > totalCompletions my
                        \<or> (totalCompletions uc = totalCompletions my \<and> score uc > score my)
                   else if rankingType = ''streak''
                   then maxStreakCount uc > maxStreakCount my
                        \<or> (maxStreakCount uc = maxStreakCount my
                            \<and> currentStreakCount uc > currentStreakCount my)
                        \<or> (maxStreakCount uc = maxStreakCount my
                            \<and> currentStreakCount uc = currentStreakCount my
                            \<and> score uc > score my)
                   else score uc > score my
                        \<or> (score uc = score my
                            \<and> totalCompletions uc > totalCompletions my)))"
proof -
  let ?total = "int (length (challengeRecords st cid))"
  let ?higher = "int (length (filter (matchCondition rankingType my) (challengeRecords st cid)))"
  let ?rank = "?higher + 1"
  let ?k = "?total - ?rank + 1"
  let ?p = "mathRound (jsMul (jsDiv (of_int ?k) (of_int ?total)) 100)"
  let ?resp = "\<lparr>resp_rank = ?rank, resp_totalParticipants = ?total, resp_percentile = ?p,
                resp_value = myValue rankingType my\<rparr>"
  have g: "getMyChallengeRank isValid st uid cid rankingType = Inr ?resp"
    by (rule getMyChallengeRank_Some [of isValid cid uid st my rankingType, OF v f])
  have e: "filter (matchCondition rankingType my) (challengeRecords st cid)
             = filter (\<lambda>uc. sortsBefore (sortField rankingType) uc my) (challengeRecords st cid)"
    by (rule filter_cong) (simp_all add: matchCondition_sortsBefore)
  have r: "resp_rank ?resp
             = 1 + int (length (filter (\<lambda>uc. sortsBefore (sortField rankingType) uc my)
                                  (challengeRecords st cid)))"
    by (simp add: e)
  from higher_count_less [OF f, of rankingType] have k: "1 \<le> ?k" "?k \<le> ?total"
    by simp_all
  have x: "round (100 * of_int ?k / (of_int ?total :: rat)) - 1 \<le> ?p
           \<and> ?p \<le> round (100 * of_int ?k / (of_int ?total :: rat))
           \<and> (100 * of_int ?k / (of_int ?total :: rat)
                  - of_int \<lfloor>100 * of_int ?k / (of_int ?total :: rat)\<rfloor> \<noteq> 1 / 2 \<longrightarrow>
                ?p = round (100 * of_int ?k / (of_int ?total :: rat)))"
    if "?total < 2 ^ 44"
    using ratio_rounding [OF k that] by blast
  have a: "resp_totalParticipants ?resp < 2 ^ 44 \<longrightarrow>
                (let exact = 100 * of_int (resp_totalParticipants ?resp - resp_rank ?resp + 1)
                               / (of_int (resp_totalParticipants ?resp) :: rat)
                 in round exact - 1 \<le> resp_percentile ?resp
                    \<and> resp_percentile ?resp \<le> round exact
                    \<and> (exact - of_int \<lfloor>exact\<rfloor> \<noteq> 1 / 2 \<longrightarrow>
                          resp_percentile ?resp = round exact))"
    using x by (simp add: Let_def)
  have b: "resp_totalParticipants ?resp = ?total
           \<and> resp_percentile ?resp
               = mathRound (jsMul (jsDiv (of_int (resp_totalParticipants ?resp
                                                   - resp_rank ?resp + 1))
                                         (of_int (resp_totalParticipants ?resp))) 100)"
    by simp
  from g r a b sortsBefore_sortField [of rankingType _ my] show ?thesis
    by (intro exI [of _ ?resp]) blast
qed

theorem my_rank_formula_witness:
  "anyObjectId ''c1''
   \<and> findUserChallenge ''uC'' ''c1'' rankStore = Some rankC
   \<and> getMyChallengeRank anyObjectId rankStore ''uC'' ''c1'' ''streak'' = Inr rankResponseC
   \<and> filter (\<lambda>uc. sortsBefore (sortField ''streak'') uc rankC) (challengeRecords rankStore ''c1'')
       = [rankA]
   \<and> resp_rank rankResponseC = 2
   \<and> resp_totalParticipants rankResponseC = 3
   \<and> resp_percentile rankResponseC = 67
   \<and> round (100 * of_int (3 - 2 + 1) / (of_int 3 :: rat)) = 67
   \<and> findUserChallenge ''me'' ''c1'' fortyStore = Some middleRecord
   \<and> getMyChallengeRank anyObjectId fortyStore ''me'' ''c1'' ''score''
       = Inr \<lparr>resp_rank = 18, resp_totalParticipants = 40, resp_percentile = 57,
              resp_value = 10\<rparr>
   \<and> length (filter (\<lambda>uc. sortsBefore (sortField ''score'') uc middleRecord)
               (challengeRecords fortyStore ''c1'')) = 17
   \<and> round (100 * of_int (40 - 18 + 1) / (of_int 40 :: rat)) - 1 = 57"
proof -
  have v: "anyObjectId ''c1''" by (simp add: anyObjectId_def)
  have f: "filter (\<lambda>uc. sortsBefore (sortField ''streak'') uc rankC)
             (challengeRecords rankStore ''c1'') = [rankA]"
    by (simp add: challengeRecords_def rankStore_def sortField_def rankA_def rankB_def rankC_def
          newUserChallenge_def)
  have e: "round (100 * of_int (3 - 2 + 1) / (of_int 3 :: rat)) = 67"
    "round (100 * of_int (40 - 18 + 1) / (of_int 40 :: rat)) - 1 = 57"
    by (simp_all add: round_def floor_eq_iff)
  from my_rank_formula [of anyObjectId "''c1''" "''me''" fortyStore middleRecord "''score''",
                        OF v forty_lookup]
  obtain resp where g: "getMyChallengeRank anyObjectId fortyStore ''me'' ''c1'' ''score'' = Inr resp"
    and r: "resp_rank resp
              = 1 + int (length (filter (\<lambda>uc. sortsBefore (sortField ''score'') uc middleRecord)
                                   (challengeRecords fortyStore ''c1'')))"
    by (elim exE conjE)
  from g have "resp = \<lparr>resp_rank = 18, resp_totalParticipants = 40, resp_percentile = 57,
                         resp_value = 10\<rparr>"
    by (simp only: forty_response sum.inject)
  with r have n: "length (filter (\<lambda>uc. sortsBefore (sortField ''score'') uc middleRecord)
                     (challengeRecords fortyStore ''c1'')) = 17"
    by simp
  from my_rank_formula [of anyObjectId "''c1''" "''uC''" rankStore rankC "''streak''",
                        OF v rank_lookup(1)]
  obtain resp' where g': "getMyChallengeRank anyObjectId rankStore ''uC'' ''c1'' ''streak'' = Inr resp'"
    and t': "resp_totalParticipants resp' = int (length (challengeRecords rankStore ''c1''))"
    by (elim exE conjE)
  from g' have "resp' = rankResponseC"
    by (simp only: rank_responses(1) sum.inject)
  with t' have t: "resp_totalParticipants rankResponseC = 3"
    by (simp add: challengeRecords_def rankStore_def rankA_def rankB_def rankC_def
          newUserChallenge_def)
  have q: "resp_rank rankResponseC = 2" "resp_percentile rankResponseC = 67"
    by (simp_all add: rankResponseC_def)
  from rank_responses(1) v rank_lookup(1) f e forty_lookup forty_response n t q
  show ?thesis by blast
qed

text \<open>
  Claim C10, as stated, fails: the percentile is not always at least 1. In a challenge with
  201 participants the caller ranked last gets round(100 / 201) = 0.
\<close>

theorem my_rank_percentile_zero:
  "getMyChallengeRank anyObjectId crowdStore ''me'' ''c1'' ''score''
     = Inr \<lparr>resp_rank = 201, resp_totalParticipants = 201, resp_percentile = 0,
            resp_value = 0\<rparr>"
proof -
  let ?me = "newUserChallenge ''me'' ''c1'' 0"
  have v: "anyObjectId ''c1''" by (simp add: anyObjectId_def)
  have f: "findUserChallenge ''me'' ''c1'' crowdStore = Some ?me"
    by (simp add: findUserChallenge_def crowdStore_def newUserChallenge_def)
  have c: "challengeRecords crowdStore ''c1'' = ?me # map crowdRecord [0..<200]"
    by (simp add: challengeRecords_def crowdStore_def newUserChallenge_def crowdRecord_def
          filter_map o_def)
  have m: "filter (matchCondition ''score'' ?me) (?me # map crowdRecord [0..<200])
             = map crowdRecord [0..<200]"
    by (simp add: matchCondition_def newUserChallenge_def crowdRecord_def filter_map o_def)
  have p: "mathRound (jsMul (jsDiv 1 201) 100) = 0"
    by code_simp
  show ?thesis
    unfolding getMyChallengeRank_Some
                [of anyObjectId "''c1''" "''me''" crowdStore ?me, OF v f] c m
    by (simp add: p myValue_def newUserChallenge_def)
qed

text \<open>
  Claim C10, amended. Without a progress record of the caller the query fails with
  NotFound. When it answers, the record exists, so the challenge has at least one
  participant and the division is by a positive number; 1 \<le> rank \<le> totalParticipants;
  the percentile lies between 0 and 100, and it is at least 1 when the challenge has at
  most 200 participants.
\<close>

theorem my_rank_bounds:
  "(isValid cid \<longrightarrow> findUserChallenge uid cid st = None \<longrightarrow>
      getMyChallengeRank isValid st uid cid rankingType = Inl NotFound)
   \<and> (getMyChallengeRank isValid st uid cid rankingType = Inr resp \<longrightarrow>
        findUserChallenge uid cid st \<noteq> None
        \<and> 1 \<le> resp_totalParticipants resp
        \<and> 1 \<le> resp_rank resp
        \<and> resp_rank resp \<le> resp_totalParticipants resp
        \<and> 0 \<le> resp_percentile resp
        \<and> resp_percentile resp \<le> 100
        \<and> (resp_totalParticipants resp \<le> 200 \<longrightarrow> 1 \<le> resp_percentile resp))"
proof -
  have a: "isValid cid \<longrightarrow> findUserChallenge uid cid st = None \<longrightarrow>
      getMyChallengeRank isValid st uid cid rankingType = Inl NotFound"
    by (simp add: getMyChallengeRank_def)
  have b: "findUserChallenge uid cid st \<noteq> None
        \<and> 1 \<le> resp_totalParticipants resp
        \<and> 1 \<le> resp_rank resp
        \<and> resp_rank resp \<le> resp_totalParticipants resp
        \<and> 0 \<le> resp_percentile resp
        \<and> resp_percentile resp \<le> 100
        \<and> (resp_totalParticipants resp \<le> 200 \<longrightarrow> 1 \<le> resp_percentile resp)"
    if r: "getMyChallengeRank isValid st uid cid rankingType = Inr resp"
  proof -
    from r obtain my where f: "findUserChallenge uid cid st = Some my"
      by (cases "findUserChallenge uid cid st")
         (auto simp: getMyChallengeRank_def split: if_splits)
    from r have v: "isValid cid"
      by (auto simp: getMyChallengeRank_def split: if_splits)
    let ?total = "int (length (challengeRecords st cid))"
    let ?rank = "int (length (filter (matchCondition rankingType my) (challengeRecords st cid))) + 1"
    let ?k = "?total - ?rank + 1"
    from r getMyChallengeRank_Some [of isValid cid uid st my rankingType, OF v f]
    have rk: "resp_rank resp = ?rank" and tt: "resp_totalParticipants resp = ?total"
      and pc: "resp_percentile resp = mathRound (jsMul (jsDiv (of_int ?k) (of_int ?total)) 100)"
      by auto
    from higher_count_less [OF f, of rankingType] have le: "1 \<le> ?rank" "?rank \<le> ?total"
      by simp_all
    then have ki: "0 \<le> ?k" "?k \<le> ?total" "0 < ?total" "1 \<le> ?k"
      by linarith+
    have k: "(0 :: rat) \<le> of_int ?k" "(of_int ?k :: rat) \<le> of_int ?total"
      "(0 :: rat) < of_int ?total" "(1 :: rat) \<le> of_int ?k"
      using ki by (simp_all only: of_int_0_le_iff of_int_le_iff of_int_0_less_iff of_int_1_le_iff)
    have one: "1 \<le> mathRound (jsMul (jsDiv (of_int ?k) (of_int ?total)) 100)"
      if "?total \<le> 200"
    proof -
      from that have "(of_int ?total :: rat) \<le> 200 * 1" by simp
      also have "\<dots> \<le> 200 * of_int ?k" using k(4) by (intro mult_left_mono) simp_all
      finally show ?thesis using k(3) by (intro ratio_at_least_one)
    qed
    from ratio_bounds [OF k(1) k(2) k(3)] one rk tt pc le f show ?thesis
      by simp
  qed
  from a b show ?thesis by blast
qed

theorem my_rank_bounds_witness:
  "getMyChallengeRank anyObjectId rankStore ''uB'' ''c1'' ''streak'' = Inr rankResponseB
   \<and> resp_rank rankResponseB = 3
   \<and> resp_totalParticipants rankResponseB = 3
   \<and> resp_percentile rankResponseB = 33
   \<and> getMyChallengeRank anyObjectId rankStore ''uD'' ''c1'' ''streak'' = Inl NotFound"
proof -
  have n: "findUserChallenge ''uD'' ''c1'' rankStore = None"
    by (simp add: findUserChallenge_def rankStore_def rankA_def rankB_def rankC_def
          newUserChallenge_def)
  have v: "anyObjectId ''c1''" by (simp add: anyObjectId_def)
  from my_rank_bounds [of anyObjectId "''c1''" "''uD''" rankStore "''streak''"] n v
  have a: "getMyChallengeRank anyObjectId rankStore ''uD'' ''c1'' ''streak'' = Inl NotFound"
    by simp
  from my_rank_bounds [of anyObjectId "''c1''" "''uB''" rankStore "''streak''" rankResponseB]
    rank_responses(2) a
  show ?thesis by (simp add: rankResponseB_def)
qed


lemma sortsBefore_incomparable_trans:
  "\<not> sortsBefore spec a b \<Longrightarrow> \<not> sortsBefore spec b c \<Longrightarrow> \<not> sortsBefore spec a c"
  by (induction spec) (auto split: if_splits)






text \<open>Documents that agree on every key keep their stored order.\<close>

lemma insertDoc_filter:
  assumes "P d" and "\<And>x. x \<in> set xs \<Longrightarrow> P x \<Longrightarrow> \<not> sortsBefore spec (fst x) (fst d)"
  shows "filter P (insertDoc spec d xs) = d # filter P xs"
  using assms by (induction xs) auto

lemma insertDoc_filter_out:
  "\<not> P d \<Longrightarrow> filter P (insertDoc spec d xs) = filter P xs"
  by (induction xs) auto

lemma sortStage_stable:
  "filter (\<lambda>d. \<not> sortsBefore spec (fst d) k \<and> \<not> sortsBefore spec k (fst d)) (sortStage spec docs)
     = filter (\<lambda>d. \<not> sortsBefore spec (fst d) k \<and> \<not> sortsBefore spec k (fst d)) docs"
proof (induction docs)
  case Nil
  show ?case by (simp add: sortStage_def)
next
  case (Cons d docs)
  let ?P = "\<lambda>d. \<not> sortsBefore spec (fst d) k \<and> \<not> sortsBefore spec k (fst d)"
  have s: "sortStage spec (d # docs) = insertDoc spec d (sortStage spec docs)"
    by (simp add: sortStage_def)
  show ?case
  proof (cases "?P d")
    case True
    have "\<not> sortsBefore spec (fst x) (fst d)" if "?P x" for x
      using that True sortsBefore_incomparable_trans [of spec "fst x" k "fst d"] by blast
    then have "filter ?P (insertDoc spec d (sortStage spec docs))
                 = d # filter ?P (sortStage spec docs)"
      using True by (intro insertDoc_filter) blast+
    moreover have "filter ?P (d # docs) = d # filter ?P docs"
      using True by simp
    ultimately show ?thesis using Cons by (simp only: s)
  next
    case False
    then have "filter ?P (insertDoc spec d (sortStage spec docs)) = filter ?P (sortStage spec docs)"
      by (rule insertDoc_filter_out)
    moreover have "filter ?P (d # docs) = filter ?P docs"
      using False by simp
    ultimately show ?thesis using Cons by (simp only: s)
  qed
qed





lemma getChallengeRanking_answers:
  assumes "isValid cid" and "findChallengeById cid st \<noteq> None"
    and "0 \<le> (parsedOr pageQuery 1 - 1) * parsedOr limitQuery 20"
    and "0 < parsedOr limitQuery 20"
  shows "\<exists>res. getChallengeRanking isValid st cid pageQuery limitQuery rankingType = Inr res"
  using assms by (simp add: getChallengeRanking_def Let_def)

lemma rankingDocs_records:
  "map fst (rankingDocs st cid)
     = filter (\<lambda>uc. findUserById (userId uc) st \<noteq> None) (challengeRecords st cid)"
proof -
  have "map fst (concat (map (\<lambda>uc. case findUserById (userId uc) st of
                                      None \<Rightarrow> [] | Some u \<Rightarrow> [(uc, u)]) xs))
          = filter (\<lambda>uc. findUserById (userId uc) st \<noteq> None) xs" for xs
    by (induction xs) (auto split: option.splits)
  then show ?thesis unfolding rankingDocs_def challengeRecords_def .
qed






end
